theory Spec2Isabelle
  imports Complex_Main
begin

section \<open>JavaScript values and numbers\<close>

text \<open>
  The analysis functions of \<^verbatim>\<open>analysis.js\<close> receive JavaScript values. The values
  that matter here are \<^verbatim>\<open>undefined\<close> (also what a missing argument or a missing
  property reads as), \<^verbatim>\<open>null\<close>, \<^verbatim>\<open>NaN\<close> and the finite numbers. Finite numbers are
  modelled as reals: every comparison of the source is exact on them, and rounding of
  double arithmetic is not modelled. Strings, booleans, objects and the infinities are
  not part of the model.

  A JavaScript Number, the result of \<^verbatim>\<open>ToNumber\<close>, is a \<open>real option\<close> whose \<open>None\<close>
  is \<^verbatim>\<open>NaN\<close>.
\<close>

datatype jsval = JUndefined | JNull | JNaN | JNum real

type_synonym jsnumber = "real option"

fun ToNumber :: "jsval \<Rightarrow> jsnumber" where
  "ToNumber JUndefined = None"
| "ToNumber JNull = Some 0"
| "ToNumber JNaN = None"
| "ToNumber (JNum r) = Some r"

text \<open>\<^verbatim>\<open>ToBoolean\<close>: \<^verbatim>\<open>undefined\<close>, \<^verbatim>\<open>null\<close>, \<^verbatim>\<open>NaN\<close> and \<^verbatim>\<open>0\<close> are falsy.\<close>

fun truthy :: "jsval \<Rightarrow> bool" where
  "truthy (JNum r) = (r \<noteq> 0)"
| "truthy JUndefined = False"
| "truthy JNull = False"
| "truthy JNaN = False"

text \<open>\<^verbatim>\<open>a || b\<close>\<close>

definition js_or :: "jsval \<Rightarrow> jsval \<Rightarrow> jsval" where
  "js_or a b = (if truthy a then a else b)"

text \<open>The relational operators on numbers: every comparison with \<^verbatim>\<open>NaN\<close> is false.\<close>

fun js_lt :: "jsnumber \<Rightarrow> jsnumber \<Rightarrow> bool" where
  "js_lt (Some a) (Some b) = (a < b)"
| "js_lt _ _ = False"

fun js_le :: "jsnumber \<Rightarrow> jsnumber \<Rightarrow> bool" where
  "js_le (Some a) (Some b) = (a \<le> b)"
| "js_le _ _ = False"

definition js_gt :: "jsnumber \<Rightarrow> jsnumber \<Rightarrow> bool" where
  "js_gt a b = js_lt b a"

definition js_ge :: "jsnumber \<Rightarrow> jsnumber \<Rightarrow> bool" where
  "js_ge a b = js_le b a"

text \<open>\<^verbatim>\<open>Math.max(a, b)\<close> and \<^verbatim>\<open>Math.min(a, b)\<close>: \<^verbatim>\<open>NaN\<close> if either argument is.\<close>

fun Math_max :: "jsnumber \<Rightarrow> jsnumber \<Rightarrow> jsnumber" where
  "Math_max (Some a) (Some b) = Some (max a b)"
| "Math_max _ _ = None"

fun Math_min :: "jsnumber \<Rightarrow> jsnumber \<Rightarrow> jsnumber" where
  "Math_min (Some a) (Some b) = Some (min a b)"
| "Math_min _ _ = None"

text \<open>\<^verbatim>\<open>isNaN(v)\<close> converts its argument to a number first.\<close>

definition isNaN :: "jsval \<Rightarrow> bool" where
  "isNaN v = (ToNumber v = None)"

text \<open>\<^verbatim>\<open>Array.prototype.indexOf\<close>: the first index of the value, or \<open>-1\<close>.\<close>

fun indexOf :: "'a list \<Rightarrow> 'a \<Rightarrow> int" where
  "indexOf [] v = - 1"
| "indexOf (x # xs) v =
     (if x = v then 0 else (let r = indexOf xs v in if r < 0 then - 1 else r + 1))"

section \<open>Pest amount classifier: \<^verbatim>\<open>categorizePestAmount\<close>\<close>

text \<open>
  \<^verbatim>\<open>const count = Math.max(0, Number(estimatedCount || 0));\<close>, shared by the
  classifier, the forecaster and the community aggregator.
\<close>

definition clampCount :: "jsval \<Rightarrow> jsnumber" where
  "clampCount estimatedCount = Math_max (Some 0) (ToNumber (js_or estimatedCount (JNum 0)))"

definition order :: "string list" where
  "order = [''very low'', ''low'', ''moderate'', ''high'', ''very high'']"

definition categorizePestAmount :: "jsval \<Rightarrow> jsval \<Rightarrow> string" where
  "categorizePestAmount estimatedCount darkPixelRatio =
     (let count = clampCount estimatedCount;
          category =
            (if js_le count (Some 2) then ''very low''
             else if js_le count (Some 5) then ''low''
             else if js_le count (Some 12) then ''moderate''
             else if js_le count (Some 25) then ''high''
             else ''very high'')
      in if js_ge (ToNumber darkPixelRatio) (Some 0.15)
         then (let idx = min (indexOf order category + 1) (int (length order) - 1)
               in order ! nat idx)
         else category)"

text \<open>The classifier as the specification words it, for comparison with the code.\<close>

datatype category = VeryLow | Low | Moderate | High | VeryHigh

fun category_name :: "category \<Rightarrow> string" where
  "category_name VeryLow = ''very low''"
| "category_name Low = ''low''"
| "category_name Moderate = ''moderate''"
| "category_name High = ''high''"
| "category_name VeryHigh = ''very high''"

fun escalate :: "category \<Rightarrow> category" where
  "escalate VeryLow = Low"
| "escalate Low = Moderate"
| "escalate Moderate = High"
| "escalate High = VeryHigh"
| "escalate VeryHigh = VeryHigh"

text \<open>A negative or missing count is clamped to 0.\<close>

fun clamped :: "jsval \<Rightarrow> real" where
  "clamped (JNum r) = (if r < 0 then 0 else r)"
| "clamped JUndefined = 0"
| "clamped JNull = 0"
| "clamped JNaN = 0"

definition bucket :: "real \<Rightarrow> category" where
  "bucket c =
     (if c \<le> 2 then VeryLow else if c \<le> 5 then Low else if c \<le> 12 then Moderate
      else if c \<le> 25 then High else VeryHigh)"

definition classify :: "jsval \<Rightarrow> real \<Rightarrow> string" where
  "classify count darkPixelRatio =
     category_name
       (if darkPixelRatio \<ge> 0.15 then escalate (bucket (clamped count))
        else bucket (clamped count))"

section \<open>Heat stress scorer: \<^verbatim>\<open>computeHeatStressLevel\<close>\<close>

text \<open>
  The four blocks of the source, each adding to the running \<^verbatim>\<open>stressScore\<close>. The
  score is a sum of the integer constants of the source, so it is an \<open>int\<close>.
\<close>

definition airStep :: "jsval \<Rightarrow> int \<Rightarrow> int" where
  "airStep airTemperature stressScore =
     (if js_gt (ToNumber airTemperature) (Some 35) then stressScore + 50
      else if js_gt (ToNumber airTemperature) (Some 32) then stressScore + 35
      else if js_gt (ToNumber airTemperature) (Some 30) then stressScore + 20
      else if js_gt (ToNumber airTemperature) (Some 25) then stressScore + 10
      else stressScore)"

definition soilStep :: "jsval \<Rightarrow> int \<Rightarrow> int" where
  "soilStep soilTemperature stressScore =
     (if js_gt (ToNumber soilTemperature) (Some 30) then stressScore + 25
      else if js_gt (ToNumber soilTemperature) (Some 28) then stressScore + 15
      else if js_gt (ToNumber soilTemperature) (Some 26) then stressScore + 10
      else if js_gt (ToNumber soilTemperature) (Some 24) then stressScore + 5
      else stressScore)"

definition moistureStep :: "jsval \<Rightarrow> int \<Rightarrow> int" where
  "moistureStep soilMoisture stressScore =
     (if js_lt (ToNumber soilMoisture) (Some 20) then stressScore + 15
      else if js_lt (ToNumber soilMoisture) (Some 30) then stressScore + 10
      else if js_lt (ToNumber soilMoisture) (Some 40) then stressScore + 5
      else stressScore)"

definition humidityStep :: "jsval \<Rightarrow> int \<Rightarrow> int" where
  "humidityStep relativeHumidity stressScore =
     (if js_lt (ToNumber relativeHumidity) (Some 30) then stressScore + 10
      else if js_lt (ToNumber relativeHumidity) (Some 50) then stressScore + 5
      else stressScore)"

text \<open>The value of \<^verbatim>\<open>stressScore\<close> before and after \<^verbatim>\<open>Math.min(stressScore, 100)\<close>.\<close>

definition stressSum :: "jsval \<Rightarrow> jsval \<Rightarrow> jsval \<Rightarrow> jsval \<Rightarrow> int" where
  "stressSum airTemperature soilTemperature soilMoisture relativeHumidity =
     humidityStep relativeHumidity
       (moistureStep soilMoisture (soilStep soilTemperature (airStep airTemperature 0)))"

definition finalStressScore :: "jsval \<Rightarrow> jsval \<Rightarrow> jsval \<Rightarrow> jsval \<Rightarrow> int" where
  "finalStressScore airTemperature soilTemperature soilMoisture relativeHumidity =
     min (stressSum airTemperature soilTemperature soilMoisture relativeHumidity) 100"

definition stressLevel :: "int \<Rightarrow> string" where
  "stressLevel stressScore =
     (if stressScore \<ge> 70 then ''critical''
      else if stressScore \<ge> 50 then ''high''
      else if stressScore \<ge> 30 then ''moderate''
      else if stressScore \<ge> 15 then ''low''
      else ''minimal'')"

definition computeHeatStressLevel :: "jsval \<Rightarrow> jsval \<Rightarrow> jsval \<Rightarrow> jsval \<Rightarrow> string" where
  "computeHeatStressLevel airTemperature soilTemperature soilMoisture relativeHumidity =
     stressLevel (finalStressScore airTemperature soilTemperature soilMoisture relativeHumidity)"

text \<open>
  The tier table of the specification: a list of thresholds with their points, in the
  order the specification gives them. An input earns the points of the last tier whose
  threshold it passes, and nothing when it passes none.
\<close>

definition tierAbove :: "(real \<times> int) list \<Rightarrow> real \<Rightarrow> int" where
  "tierAbove tiers v = foldl (\<lambda>pts (t, p). if v > t then p else pts) 0 tiers"

definition tierBelow :: "(real \<times> int) list \<Rightarrow> real \<Rightarrow> int" where
  "tierBelow tiers v = foldl (\<lambda>pts (t, p). if v < t then p else pts) 0 tiers"

definition airTiers :: "(real \<times> int) list" where
  "airTiers = [(25, 10), (30, 20), (32, 35), (35, 50)]"

definition soilTiers :: "(real \<times> int) list" where
  "soilTiers = [(24, 5), (26, 10), (28, 15), (30, 25)]"

definition moistureTiers :: "(real \<times> int) list" where
  "moistureTiers = [(40, 5), (30, 10), (20, 15)]"

definition humidityTiers :: "(real \<times> int) list" where
  "humidityTiers = [(50, 5), (30, 10)]"

definition tierSum :: "real \<Rightarrow> real \<Rightarrow> real \<Rightarrow> real \<Rightarrow> int" where
  "tierSum a s m r =
     tierAbove airTiers a + tierAbove soilTiers s + tierBelow moistureTiers m
       + tierBelow humidityTiers r"

text \<open>
  The validation of \<^verbatim>\<open>POST /api/submit-microclimate\<close> that precedes the call of the
  scorer: the handler answers 400 with a message, or goes on to score.
\<close>

definition submitMicroclimate :: "jsval \<Rightarrow> jsval \<Rightarrow> jsval \<Rightarrow> jsval \<Rightarrow> (nat \<times> string) + string" where
  "submitMicroclimate airTemperature soilTemperature soilMoisture relativeHumidity =
     (if \<not> truthy airTemperature \<or> \<not> truthy soilTemperature \<or> \<not> truthy soilMoisture
           \<or> \<not> truthy relativeHumidity
      then Inl (400, ''All microclimate values are required'')
      else if isNaN airTemperature \<or> isNaN soilTemperature \<or> isNaN soilMoisture
           \<or> isNaN relativeHumidity
      then Inl (400, ''All values must be numbers'')
      else Inr (computeHeatStressLevel airTemperature soilTemperature soilMoisture
                  relativeHumidity))"

section \<open>Individual risk forecaster: \<^verbatim>\<open>computeForecastForArea\<close>\<close>

text \<open>
  The rows of the tables \<^verbatim>\<open>images\<close> and \<^verbatim>\<open>microclimate_data\<close>, with the columns the
  analysis reads. \<open>created_at\<close> is the time value of \<^verbatim>\<open>new Date(row.created_at)\<close>,
  \<^verbatim>\<open>NaN\<close> for an invalid date.
\<close>

record db_row =
  created_at :: jsnumber

record image_row = db_row +
  dark_pixel_ratio :: jsval
  estimated_pest_count :: jsval

record microclimate_row = db_row +
  air_temperature :: jsval
  relative_humidity :: jsval
  soil_moisture :: jsval
  heat_stress_level :: string

text \<open>
  The chain of breakpoints that maps a count to its ordinal level. The source writes
  it out three times (classifier, forecaster, community aggregator) with the same
  breakpoints.
\<close>

definition pestLevel :: "jsnumber \<Rightarrow> nat" where
  "pestLevel c =
     (if js_le c (Some 2) then 0
      else if js_le c (Some 5) then 1
      else if js_le c (Some 12) then 2
      else if js_le c (Some 25) then 3
      else 4)"

record pestAmount =
  level :: nat
  count :: jsnumber

definition toPestAmount :: "image_row \<Rightarrow> pestAmount" where
  "toPestAmount row =
     (let c = clampCount (estimated_pest_count row) in \<lparr>level = pestLevel c, count = c\<rparr>)"

definition computeRiskLevel :: "real \<Rightarrow> string" where
  "computeRiskLevel score =
     (if score \<ge> 0.8 then ''high'' else if score \<ge> 0.5 then ''medium'' else ''low'')"

text \<open>
  The callback of \<^verbatim>\<open>pestAmounts.reduce\<close>, run over the list with its index: the
  accumulator \<open>running\<close> is the total weight so far, and \<^verbatim>\<open>levelCounts\<close> is updated in place.
\<close>

fun reduceWeights :: "pestAmount list \<Rightarrow> nat \<Rightarrow> real \<times> real list \<Rightarrow> real \<times> real list" where
  "reduceWeights [] index (running, levelCounts) = (running, levelCounts)"
| "reduceWeights (pest # rest) index (running, levelCounts) =
     (let weight = exp (- real index * 0.2);
          levelCounts' =
            (if level pest = 0 then levelCounts[0 := levelCounts ! 0 + weight]
             else if level pest = 1 then levelCounts[1 := levelCounts ! 1 + weight]
             else if level pest = 2 then levelCounts[2 := levelCounts ! 2 + weight]
             else if level pest = 3 then levelCounts[3 := levelCounts ! 3 + weight]
             else if level pest = 4 then levelCounts[4 := levelCounts ! 4 + weight]
             else levelCounts)
      in reduceWeights rest (index + 1) (running + weight, levelCounts'))"

text \<open>The loop \<^verbatim>\<open>for (let i = 0; i < 5; i++)\<close> that accumulates \<^verbatim>\<open>weightedScore\<close>.\<close>

definition weightedScoreLoop :: "real list \<Rightarrow> real" where
  "weightedScoreLoop levelDistribution =
     foldl (\<lambda>weightedScore i.
              let levelWeight = real i / 4
              in weightedScore + (levelDistribution ! i / 100) * levelWeight)
       0 [0..<5]"

datatype forecast_details =
  NoData (reason: string) (recentImages: nat)
| Distribution (totalImages: nat) (distributionPercentages: "real list") (weightedScore: real)

record forecast =
  riskScore :: real
  riskLevel :: string
  details :: forecast_details

text \<open>
  \<open>rows\<close> is the result of the query (the latest 20 images of the user and area, most
  recent first). The percentages and the weighted score of the details are kept as
  numbers; the source formats them with \<^verbatim>\<open>toFixed(1)\<close>.
\<close>

definition computeForecastForArea :: "image_row list \<Rightarrow> forecast" where
  "computeForecastForArea rows =
     (if length rows = 0
      then (let score = 0.1
            in \<lparr>riskScore = score, riskLevel = computeRiskLevel score,
                details = NoData ''no_data'' 0\<rparr>)
      else
        (let pestAmounts = map toPestAmount rows;
             (totalWeight, levelCounts) = reduceWeights pestAmounts 0 (0, [0, 0, 0, 0, 0]);
             totalImages = length pestAmounts;
             levelDistribution = map (\<lambda>c. (c / totalWeight) * 100) levelCounts;
             weighted = weightedScoreLoop levelDistribution;
             score = weighted;
             lowRiskImages = levelDistribution ! 0 + levelDistribution ! 1;
             highRiskImages = levelDistribution ! 3 + levelDistribution ! 4;
             score = (if lowRiskImages > 60 then score * 0.5
                      else if highRiskImages > 40 then score * 1.3
                      else score);
             recentPestLevels = map level (take (min 5 totalImages) pestAmounts);
             recentLowCount = length (filter (\<lambda>l. l \<le> 1) recentPestLevels);
             score = (if length recentPestLevels > 0
                         \<and> real recentLowCount \<ge> real (length recentPestLevels) * 0.8
                      then score * 0.4 else score);
             score = max 0 (min 1 score)
         in \<lparr>riskScore = score, riskLevel = computeRiskLevel score,
             details = Distribution totalImages levelDistribution weighted\<rparr>))"

text \<open>
  The forecaster as the specification words it: the share of each level in the total
  recency weight, the interpolated score, and the two multipliers.
\<close>

definition levelOf :: "image_row \<Rightarrow> nat" where
  "levelOf row = pestLevel (Some (clamped (estimated_pest_count row)))"

definition recencyWeight :: "nat \<Rightarrow> real" where
  "recencyWeight i = exp (- 0.2 * real i)"

definition share :: "image_row list \<Rightarrow> nat \<Rightarrow> real" where
  "share rows k =
     (\<Sum>i<length rows. if levelOf (rows ! i) = k then recencyWeight i else 0)
       / (\<Sum>i<length rows. recencyWeight i) * 100"

definition interpolated :: "image_row list \<Rightarrow> real" where
  "interpolated rows = (\<Sum>k<5. share rows k / 100 * (real k / 4))"

definition majorityFactor :: "image_row list \<Rightarrow> real" where
  "majorityFactor rows =
     (if share rows 0 + share rows 1 > 60 then 0.5
      else if share rows 3 + share rows 4 > 40 then 1.3
      else 1)"

definition recentCalm :: "image_row list \<Rightarrow> bool" where
  "recentCalm rows =
     (let recent = take (min 5 (length rows)) rows
      in 100 * length (filter (\<lambda>row. levelOf row \<le> 1) recent) \<ge> 80 * length recent)"

definition calmFactor :: "image_row list \<Rightarrow> real" where
  "calmFactor rows = (if recentCalm rows then 0.4 else 1)"

definition clamp01 :: "real \<Rightarrow> real" where
  "clamp01 x = (if x < 0 then 0 else if x > 1 then 1 else x)"

definition levelByThreshold :: "real \<Rightarrow> string" where
  "levelByThreshold x = (if x \<ge> 0.8 then ''high'' else if x \<ge> 0.5 then ''medium'' else ''low'')"

section \<open>Community trend aggregator\<close>

text \<open>
  The store: each prepared statement either throws or returns its rows. The count
  statements return one row (\<open>Some\<close> of its \<^verbatim>\<open>user_count\<close>) or \<^verbatim>\<open>undefined\<close>, and
  reading \<^verbatim>\<open>.user_count\<close> of \<^verbatim>\<open>undefined\<close> throws a \<^verbatim>\<open>TypeError\<close>.
\<close>

datatype js_error = StoreError string | TypeError

record store =
  getCommunityPestDataRecent :: "string \<Rightarrow> js_error + image_row list"
  getCommunityPestData :: "string \<Rightarrow> js_error + image_row list"
  getCommunityUserCount :: "string \<Rightarrow> js_error + int option"
  getCommunityMicroclimateDataRecent :: "string \<Rightarrow> js_error + microclimate_row list"
  getCommunityMicroclimateData :: "string \<Rightarrow> js_error + microclimate_row list"
  getCommunityUserCountMicroclimate :: "string \<Rightarrow> js_error + int option"

definition user_count :: "js_error + int option \<Rightarrow> js_error + int" where
  "user_count r = (case r of Inl e \<Rightarrow> Inl e | Inr None \<Rightarrow> Inl TypeError | Inr (Some c) \<Rightarrow> Inr c)"

text \<open>
  The results. The display strings \<^verbatim>\<open>trendDescription\<close> are left out, with the
  counts and rates that only they use, and \<^verbatim>\<open>recentActivity\<close> keeps the count that
  the source formats into its text. A field that a result object does not have is
  \<open>None\<close>; the averages are kept as numbers (\<^verbatim>\<open>toFixed(1)\<close> in the source). The
  field \<^verbatim>\<open>riskLevel\<close> of the pest trend is \<open>communityRiskLevel\<close> here, as the forecast
  has a field of that name.
\<close>

datatype activity = NoRecentSubmissions | UnableToLoadData | SubmissionsInLast24Hours nat

record trend_common =
  trend :: string
  participation :: int
  confidence :: string
  recentActivity :: activity
  totalSubmissions :: "nat option"

record pest_trend = trend_common +
  communityRiskLevel :: string
  averagePestLevel :: "real option"

record heat_trend = trend_common +
  heatStressLevel :: string
  averageAirTemp :: "real option"
  averageHumidity :: "real option"

text \<open>
  The rows whose \<^verbatim>\<open>created_at\<close> is later than 24 hours before \<open>now\<close>, the value of
  \<^verbatim>\<open>Date.now()\<close> at the call.
\<close>

definition recentCount :: "real \<Rightarrow> ('a db_row_scheme) list \<Rightarrow> nat" where
  "recentCount now communityData =
     length (filter (\<lambda>row. js_gt (created_at row) (Some (now - 24 * 60 * 60 * 1000)))
               communityData)"

text \<open>The body of the \<^verbatim>\<open>try\<close> block of \<^verbatim>\<open>computeCommunityPestTrend\<close>.\<close>

definition pestTrendBody :: "string \<Rightarrow> store \<Rightarrow> string \<Rightarrow> real \<Rightarrow> js_error + pest_trend" where
  "pestTrendBody areaId db filterType now =
     (case (if filterType = ''recent'' then getCommunityPestDataRecent db areaId
            else getCommunityPestData db areaId) of
        Inl err \<Rightarrow> Inl err
      | Inr communityData \<Rightarrow>
          if length communityData = 0
          then Inr \<lparr>trend = ''no_data'', participation = 0, confidence = ''low'',
                    recentActivity = NoRecentSubmissions, totalSubmissions = None,
                    communityRiskLevel = ''low'', averagePestLevel = None\<rparr>
          else
            (let pestAmounts =
                   map (\<lambda>row. pestLevel (clampCount (estimated_pest_count row))) communityData;
                 avgPestAmount =
                   real (foldl (\<lambda>acc amount. acc + amount) 0 pestAmounts)
                     / real (length pestAmounts);
                 (trendLabel, riskLevelLabel) =
                   (if avgPestAmount \<ge> 3.5 then (''rising_significantly'', ''high'')
                    else if avgPestAmount \<ge> 2.5 then (''rising_moderately'', ''moderate'')
                    else if avgPestAmount \<ge> 1.5 then (''stable_moderate'', ''moderate'')
                    else (''stable_low'', ''low''))
             in case user_count (getCommunityUserCount db areaId) of
                  Inl err \<Rightarrow> Inl err
                | Inr userCount \<Rightarrow>
                    (let confidenceLabel =
                           (if trendLabel = ''rising_significantly'' then ''high''
                            else if trendLabel = ''rising_moderately'' then ''medium''
                            else if trendLabel = ''stable_moderate'' then ''medium''
                            else if trendLabel = ''stable_low'' then ''high''
                            else ''medium'')
                     in Inr \<lparr>trend = trendLabel, participation = userCount,
                              confidence = confidenceLabel,
                              recentActivity =
                                SubmissionsInLast24Hours (recentCount now communityData),
                              totalSubmissions = Some (length communityData),
                              communityRiskLevel = riskLevelLabel,
                              averagePestLevel = Some avgPestAmount\<rparr>)))"

text \<open>
  The whole function: the \<^verbatim>\<open>catch\<close> block turns whatever the body throws into the
  degraded result (and logs it, which is not modelled). \<open>filterType\<close> is \<open>None\<close> when
  the caller passes no third argument, and then defaults to \<^verbatim>\<open>'recent'\<close>.
\<close>

definition computeCommunityPestTrend :: "string \<Rightarrow> store \<Rightarrow> string option \<Rightarrow> real \<Rightarrow> pest_trend" where
  "computeCommunityPestTrend areaId db filterType now =
     (case pestTrendBody areaId db (case filterType of None \<Rightarrow> ''recent'' | Some t \<Rightarrow> t) now of
        Inr result \<Rightarrow> result
      | Inl err \<Rightarrow>
          \<lparr>trend = ''error'', participation = 0, confidence = ''low'',
           recentActivity = UnableToLoadData, totalSubmissions = None,
           communityRiskLevel = ''unknown'', averagePestLevel = None\<rparr>)"

text \<open>
  \<^verbatim>\<open>String.prototype.toLowerCase\<close> on ASCII letters, and the lookup
  \<^verbatim>\<open>stressValues[level] || 0\<close>. (The two lower-case names that the object inherits from
  its prototype, \<^verbatim>\<open>constructor\<close> and \<^verbatim>\<open>__proto__\<close>, are not levels the application
  stores, and the lookup of the model answers 0 for them.)
\<close>

definition toLowerCase :: "string \<Rightarrow> string" where
  "toLowerCase s =
     map (\<lambda>c. let n = (of_char c :: nat) in if 65 \<le> n \<and> n \<le> 90 then char_of (n + 32) else c) s"

definition stressValues :: "(string \<times> nat) list" where
  "stressValues = [(''minimal'', 0), (''low'', 1), (''moderate'', 2), (''high'', 3), (''critical'', 4)]"

definition stressOrdinal :: "microclimate_row \<Rightarrow> nat" where
  "stressOrdinal row =
     (let lvl = toLowerCase (if heat_stress_level row = [] then ''minimal''
                             else heat_stress_level row)
      in case map_of stressValues lvl of None \<Rightarrow> 0 | Some v \<Rightarrow> v)"

text \<open>\<^verbatim>\<open>row.air_temperature || 0\<close> as a number.\<close>

definition orZero :: "jsval \<Rightarrow> real" where
  "orZero v = (case js_or v (JNum 0) of JNum r \<Rightarrow> r | _ \<Rightarrow> 0)"

definition average :: "('a \<Rightarrow> real) \<Rightarrow> 'a list \<Rightarrow> real" where
  "average f communityData =
     foldl (\<lambda>acc row. acc + f row) 0 communityData / real (length communityData)"

text \<open>The body of the \<^verbatim>\<open>try\<close> block of \<^verbatim>\<open>computeCommunityHeatStressTrend\<close>.\<close>

definition heatTrendBody :: "string \<Rightarrow> store \<Rightarrow> string \<Rightarrow> real \<Rightarrow> js_error + heat_trend" where
  "heatTrendBody areaId db filterType now =
     (case (if filterType = ''recent'' then getCommunityMicroclimateDataRecent db areaId
            else getCommunityMicroclimateData db areaId) of
        Inl err \<Rightarrow> Inl err
      | Inr communityData \<Rightarrow>
          if length communityData = 0
          then Inr \<lparr>trend = ''no_data'', participation = 0, confidence = ''low'',
                    recentActivity = NoRecentSubmissions, totalSubmissions = None,
                    heatStressLevel = ''minimal'', averageAirTemp = None,
                    averageHumidity = None\<rparr>
          else
            (let stressLevels = map stressOrdinal communityData;
                 avgStressLevel =
                   real (foldl (\<lambda>acc lvl. acc + lvl) 0 stressLevels)
                     / real (length stressLevels);
                 avgAirTemp = average (\<lambda>row. orZero (air_temperature row)) communityData;
                 avgHumidity = average (\<lambda>row. orZero (relative_humidity row)) communityData;
                 (trendLabel, heatLabel) =
                   (if avgStressLevel \<ge> 3.5 then (''critical_conditions'', ''critical'')
                    else if avgStressLevel \<ge> 2.5 then (''elevated_conditions'', ''high'')
                    else if avgStressLevel \<ge> 1.5 then (''moderate_conditions'', ''moderate'')
                    else if avgStressLevel \<ge> 0.5 then (''mild_conditions'', ''low'')
                    else (''optimal_conditions'', ''minimal''))
             in case user_count (getCommunityUserCountMicroclimate db areaId) of
                  Inl err \<Rightarrow> Inl err
                | Inr userCount \<Rightarrow>
                    (let confidenceLabel =
                           (if trendLabel = ''critical_conditions'' then ''high''
                            else if trendLabel = ''elevated_conditions'' then ''high''
                            else if trendLabel = ''moderate_conditions'' then ''medium''
                            else if trendLabel = ''mild_conditions'' then ''medium''
                            else if trendLabel = ''optimal_conditions'' then ''high''
                            else ''medium'')
                     in Inr \<lparr>trend = trendLabel, participation = userCount,
                              confidence = confidenceLabel,
                              recentActivity =
                                SubmissionsInLast24Hours (recentCount now communityData),
                              totalSubmissions = Some (length communityData),
                              heatStressLevel = heatLabel,
                              averageAirTemp = Some avgAirTemp,
                              averageHumidity = Some avgHumidity\<rparr>)))"

definition computeCommunityHeatStressTrend :: "string \<Rightarrow> store \<Rightarrow> string option \<Rightarrow> real \<Rightarrow> heat_trend" where
  "computeCommunityHeatStressTrend areaId db filterType now =
     (case heatTrendBody areaId db (case filterType of None \<Rightarrow> ''recent'' | Some t \<Rightarrow> t) now of
        Inr result \<Rightarrow> result
      | Inl err \<Rightarrow>
          \<lparr>trend = ''error'', participation = 0, confidence = ''low'',
           recentActivity = UnableToLoadData, totalSubmissions = None,
           heatStressLevel = ''unknown'', averageAirTemp = None, averageHumidity = None\<rparr>)"

text \<open>
  The dataset that each aggregator reads for a filter type, and an in-memory store
  whose statements answer the same for every area.
\<close>

definition pestDataset :: "store \<Rightarrow> string \<Rightarrow> string option \<Rightarrow> js_error + image_row list" where
  "pestDataset db areaId filterType =
     (if (case filterType of None \<Rightarrow> ''recent'' | Some t \<Rightarrow> t) = ''recent''
      then getCommunityPestDataRecent db areaId else getCommunityPestData db areaId)"

definition heatDataset :: "store \<Rightarrow> string \<Rightarrow> string option \<Rightarrow> js_error + microclimate_row list" where
  "heatDataset db areaId filterType =
     (if (case filterType of None \<Rightarrow> ''recent'' | Some t \<Rightarrow> t) = ''recent''
      then getCommunityMicroclimateDataRecent db areaId
      else getCommunityMicroclimateData db areaId)"

definition fakeStore ::
  "js_error + image_row list \<Rightarrow> js_error + int option \<Rightarrow> js_error + microclimate_row list
     \<Rightarrow> js_error + int option \<Rightarrow> store" where
  "fakeStore pestRows pestUsers heatRows heatUsers =
     \<lparr>getCommunityPestDataRecent = (\<lambda>areaId. pestRows),
      getCommunityPestData = (\<lambda>areaId. pestRows),
      getCommunityUserCount = (\<lambda>areaId. pestUsers),
      getCommunityMicroclimateDataRecent = (\<lambda>areaId. heatRows),
      getCommunityMicroclimateData = (\<lambda>areaId. heatRows),
      getCommunityUserCountMicroclimate = (\<lambda>areaId. heatUsers)\<rparr>"

text \<open>
  The mean ordinal and the bucketing of the pest aggregator as the specification words
  them.
\<close>

definition meanOrdinal :: "image_row list \<Rightarrow> real" where
  "meanOrdinal rows = (\<Sum>row\<leftarrow>rows. real (levelOf row)) / real (length rows)"

definition trendOf :: "real \<Rightarrow> string \<times> string" where
  "trendOf avgLevel =
     (if avgLevel \<ge> 3.5 then (''rising_significantly'', ''high'')
      else if avgLevel \<ge> 2.5 then (''rising_moderately'', ''moderate'')
      else if avgLevel \<ge> 1.5 then (''stable_moderate'', ''moderate'')
      else (''stable_low'', ''low''))"

text \<open>The confidence per trend label as the specification lists it, and as the code has it.\<close>

definition specConfidence :: "(string \<times> string) list" where
  "specConfidence =
     [(''rising_significantly'', ''high''), (''rising_moderately'', ''medium''),
      (''stable_moderate'', ''high''), (''stable_low'', ''high'')]"

definition codeConfidence :: "(string \<times> string) list" where
  "codeConfidence =
     [(''rising_significantly'', ''high''), (''rising_moderately'', ''medium''),
      (''stable_moderate'', ''medium''), (''stable_low'', ''high'')]"

section \<open>Image segmenter: \<^verbatim>\<open>analyzeStickyTrapImage\<close>\<close>

text \<open>
  The function is modelled from the raw grayscale buffer on: \<open>w\<close>, \<open>h\<close> and \<open>data\<close> are
  \<^verbatim>\<open>info.width\<close>, \<^verbatim>\<open>info.height\<close> and the bytes that the image library returns
  after resizing. A \<^verbatim>\<open>Uint8Array\<close> is a list of numbers; the source stores only 0 and
  1 in \<^verbatim>\<open>bin\<close> and \<^verbatim>\<open>visited\<close>. Reading a typed array out of range gives
  \<^verbatim>\<open>undefined\<close> (\<open>None\<close>), writing out of range does nothing, which is what
  \<open>xs[i := v]\<close> does.
\<close>

definition THRESHOLD :: nat where "THRESHOLD = 90"
definition MIN_BLOB_SIZE :: nat where "MIN_BLOB_SIZE = 10"

definition readAt :: "nat list \<Rightarrow> nat \<Rightarrow> nat option" where
  "readAt a i = (if i < length a then Some (a ! i) else None)"

text \<open>\<^verbatim>\<open>bin[n] === 1 && !visited[n]\<close>: \<^verbatim>\<open>undefined\<close> is not 1, and is falsy.\<close>

definition isNewDark :: "nat list \<Rightarrow> nat list \<Rightarrow> nat \<Rightarrow> bool" where
  "isNewDark bin visited n =
     (readAt bin n = Some 1 \<and> (case readAt visited n of None \<Rightarrow> True | Some v \<Rightarrow> v = 0))"

text \<open>The loop that builds the mask, with its index \<open>i\<close>.\<close>

fun buildMask :: "nat list \<Rightarrow> nat \<Rightarrow> nat list \<times> nat \<Rightarrow> nat list \<times> nat" where
  "buildMask [] i (bin, darkCount) = (bin, darkCount)"
| "buildMask (v # data) i (bin, darkCount) =
     (if v < THRESHOLD then buildMask data (i + 1) (bin[i := 1], darkCount + 1)
      else buildMask data (i + 1) (bin, darkCount))"

definition idx :: "nat \<Rightarrow> nat \<Rightarrow> nat \<Rightarrow> nat" where
  "idx w x y = y * w + x"

text \<open>
  One neighbour test of the flood fill:
  \<^verbatim>\<open>if (bin[n] === 1 && !visited[n]) { visited[n] = 1; stack.push(n); }\<close>.
  The stack is a list whose head is the top.
\<close>

definition visit :: "nat list \<Rightarrow> nat \<Rightarrow> nat list \<times> nat list \<Rightarrow> nat list \<times> nat list" where
  "visit bin n st =
     (case st of (visited, stack) \<Rightarrow>
        if isNewDark bin visited n then (visited[n := 1], n # stack) else (visited, stack))"

text \<open>
  The four neighbour tests on the popped index \<open>cur\<close>: up, down, left, right. The
  comparisons with \<^verbatim>\<open>h - 1\<close> and \<^verbatim>\<open>w - 1\<close> are on integers, as the subtraction of the
  source does not truncate. (For \<open>w = 0\<close> the source computes \<^verbatim>\<open>NaN\<close> for \<open>cx\<close>; the
  mask of such an image is empty and the scan pops no index.)
\<close>

definition expand :: "nat \<Rightarrow> nat \<Rightarrow> nat list \<Rightarrow> nat \<Rightarrow> nat list \<times> nat list \<Rightarrow> nat list \<times> nat list" where
  "expand w h bin cur st =
     (let cx = cur mod w;
          cy = (cur - cx) div w;
          st = (if cy > 0 then visit bin (cur - w) st else st);
          st = (if int cy < int h - 1 then visit bin (cur + w) st else st);
          st = (if cx > 0 then visit bin (cur - 1) st else st);
          st = (if int cx < int w - 1 then visit bin (cur + 1) st else st)
      in st)"

text \<open>
  The loop \<^verbatim>\<open>while (stack.length)\<close>. It is a partial function: \<open>None\<close> is a loop that
  does not end.
\<close>

partial_function (option) floodFill ::
  "nat \<Rightarrow> nat \<Rightarrow> nat list \<Rightarrow> nat list \<Rightarrow> nat list \<Rightarrow> nat \<Rightarrow> (nat list \<times> nat) option" where
  "floodFill w h bin visited stack sz =
     (case stack of
        [] \<Rightarrow> Some (visited, sz)
      | cur # rest \<Rightarrow>
          (case expand w h bin cur (visited, rest) of
             (visited', stack') \<Rightarrow> floodFill w h bin visited' stack' (sz + 1)))"

declare floodFill.simps [code]

text \<open>The body of the two scan loops at index \<open>i\<close>.\<close>

definition seedStep ::
  "nat \<Rightarrow> nat \<Rightarrow> nat list \<Rightarrow> nat \<Rightarrow> nat list \<times> nat list \<Rightarrow> (nat list \<times> nat list) option" where
  "seedStep w h bin i st =
     (case st of (visited, components) \<Rightarrow>
        if isNewDark bin visited i
        then (case floodFill w h bin (visited[i := 1]) [i] 0 of
                None \<Rightarrow> None
              | Some (visited', sz) \<Rightarrow>
                  Some (visited',
                        if sz \<ge> MIN_BLOB_SIZE then components @ [sz] else components))
        else Some (visited, components))"

text \<open>A \<^verbatim>\<open>for\<close> loop over a range whose body may not return.\<close>

fun forEach :: "('a \<Rightarrow> 's \<Rightarrow> 's option) \<Rightarrow> 'a list \<Rightarrow> 's \<Rightarrow> 's option" where
  "forEach body [] st = Some st"
| "forEach body (x # xs) st =
     (case body x st of None \<Rightarrow> None | Some st' \<Rightarrow> forEach body xs st')"

definition labelComponents :: "nat \<Rightarrow> nat \<Rightarrow> nat list \<Rightarrow> nat list option" where
  "labelComponents w h bin =
     (let visited = replicate (w * h) 0
      in case forEach (\<lambda>y. forEach (\<lambda>x. seedStep w h bin (idx w x y)) [0..<w]) [0..<h]
                (visited, [])
         of None \<Rightarrow> None | Some (visited', components) \<Rightarrow> Some components)"

text \<open>
  The returned object. Its top-level \<^verbatim>\<open>width\<close>, \<^verbatim>\<open>height\<close> and
  \<^verbatim>\<open>darkPixelRatio\<close> repeat the fields of \<^verbatim>\<open>analysis\<close>, so the record holds them
  once. The ratio is \<open>None\<close> for an image without pixels, where the source divides by 0.
\<close>

record analysis =
  width :: nat
  height :: nat
  threshold :: nat
  minBlobSize :: nat
  darkPixelRatio :: jsnumber
  blobCount :: nat
  blobSizes :: "nat list"
  estimatedPestCount :: nat

definition analyzeStickyTrapImage :: "nat \<Rightarrow> nat \<Rightarrow> nat list \<Rightarrow> analysis option" where
  "analyzeStickyTrapImage w h data =
     (let (bin, darkCount) = buildMask data 0 (replicate (w * h) 0, 0);
          ratio = (if w * h = 0 then None else Some (real darkCount / real (w * h)))
      in case labelComponents w h bin of
           None \<Rightarrow> None
         | Some components \<Rightarrow>
             Some \<lparr>width = w, height = h, threshold = THRESHOLD, minBlobSize = MIN_BLOB_SIZE,
                   darkPixelRatio = ratio, blobCount = length components,
                   blobSizes = take 50 components,
                   estimatedPestCount = length components\<rparr>)"

text \<open>
  The reference for the segmenter, on the pixels of a row-major grid: pixel \<open>i\<close> is in
  column \<open>i mod w\<close> of row \<open>i div w\<close>. Two pixels are 4-adjacent when they are next to
  each other in a row or in a column. A component is what can be reached from a dark
  pixel through adjacent dark pixels, and a blob is a component of at least 10 pixels.
\<close>

definition col :: "nat \<Rightarrow> nat \<Rightarrow> nat" where
  "col w i = i mod w"

definition row :: "nat \<Rightarrow> nat \<Rightarrow> nat" where
  "row w i = i div w"

definition adjacent4 :: "nat \<Rightarrow> nat \<Rightarrow> nat \<Rightarrow> bool" where
  "adjacent4 w i j =
     ((row w i = row w j \<and> (col w i + 1 = col w j \<or> col w j + 1 = col w i))
      \<or> (col w i = col w j \<and> (row w i + 1 = row w j \<or> row w j + 1 = row w i)))"

definition darkPixels :: "nat \<Rightarrow> nat \<Rightarrow> nat list \<Rightarrow> nat set" where
  "darkPixels w h bin = {i. i < w * h \<and> bin ! i = 1}"

definition darkEdges :: "nat \<Rightarrow> nat \<Rightarrow> nat list \<Rightarrow> (nat \<times> nat) set" where
  "darkEdges w h bin =
     {(i, j). i \<in> darkPixels w h bin \<and> j \<in> darkPixels w h bin \<and> adjacent4 w i j}"

definition component :: "nat \<Rightarrow> nat \<Rightarrow> nat list \<Rightarrow> nat \<Rightarrow> nat set" where
  "component w h bin i = (darkEdges w h bin)\<^sup>* `` {i}"

definition blobs :: "nat \<Rightarrow> nat \<Rightarrow> nat list \<Rightarrow> nat set set" where
  "blobs w h bin =
     {C \<in> component w h bin ` darkPixels w h bin. card C \<ge> 10}"

text \<open>
  The reference flood fill for a scan order \<open>ord\<close> of the pixels: each dark pixel that
  no earlier fill has reached is the seed of a fill that takes its whole component, and
  the component's size is recorded when it is at least 10.
\<close>

fun referenceFill :: "nat \<Rightarrow> nat \<Rightarrow> nat list \<Rightarrow> nat list \<Rightarrow> nat set \<Rightarrow> nat list" where
  "referenceFill w h bin [] seen = []"
| "referenceFill w h bin (p # ord) seen =
     (if p \<in> darkPixels w h bin \<and> p \<notin> seen
      then (let C = component w h bin p
            in (if card C \<ge> 10 then [card C] else []) @ referenceFill w h bin ord (seen \<union> C))
      else referenceFill w h bin ord seen)"

definition rasterOrder :: "nat \<Rightarrow> nat \<Rightarrow> nat list" where
  "rasterOrder w h = concat (map (\<lambda>y. map (\<lambda>x. y * w + x) [0..<w]) [0..<h])"

text \<open>
  For the proofs: the set of indices that \<^verbatim>\<open>visited\<close> marks, and the indices that the
  four neighbour tests of \<open>expand\<close> look at, in their order.
\<close>

definition marked :: "nat list \<Rightarrow> nat set" where
  "marked visited = {i. i < length visited \<and> visited ! i \<noteq> 0}"

definition tested :: "nat \<Rightarrow> nat \<Rightarrow> nat \<Rightarrow> nat list" where
  "tested w h cur =
     (if cur div w > 0 then [cur - w] else [])
       @ (if int (cur div w) < int h - 1 then [cur + w] else [])
       @ (if cur mod w > 0 then [cur - 1] else [])
       @ (if int (cur mod w) < int w - 1 then [cur + 1] else [])"

text \<open>
  One pass of the neighbour tests over the indices \<open>ns\<close>, from the state \<open>st\<close> to the
  state \<open>st'\<close>: the dark indices among \<open>ns\<close> become marked, and those that were not
  marked before are pushed, each once.
\<close>

definition pushes :: "nat set \<Rightarrow> nat list \<Rightarrow> nat list \<times> nat list \<Rightarrow> nat list \<times> nat list \<Rightarrow> bool" where
  "pushes D ns st st' =
     (case (st, st') of ((visited, stack), (visited', stack')) \<Rightarrow>
        length visited' = length visited
      \<and> marked visited' = marked visited \<union> (set ns \<inter> D)
      \<and> (\<exists>new. stack' = new @ stack \<and> distinct new
                \<and> set new = (set ns \<inter> D) - marked visited))"

text \<open>
  The invariant of the loop of \<open>floodFill\<close>, for a fill that started at the seed \<open>s\<close>
  when \<open>V0\<close> was marked: the stack holds marked pixels of the seed's component, each
  once; \<open>sz\<close> counts the pixels marked by this fill that have left the stack, and all
  dark neighbours of those are marked.
\<close>

definition fillInv ::
  "nat \<Rightarrow> nat \<Rightarrow> nat list \<Rightarrow> nat set \<Rightarrow> nat \<Rightarrow> nat list \<Rightarrow> nat list \<Rightarrow> nat \<Rightarrow> bool" where
  "fillInv w h bin V0 s visited stack sz =
     (length visited = w * h
    \<and> distinct stack
    \<and> set stack \<subseteq> component w h bin s
    \<and> set stack \<subseteq> marked visited
    \<and> V0 \<subseteq> marked visited
    \<and> marked visited \<subseteq> V0 \<union> component w h bin s
    \<and> s \<in> marked visited
    \<and> sz = card (marked visited - V0 - set stack)
    \<and> (\<forall>p \<in> marked visited - V0 - set stack.
          \<forall>n. (p, n) \<in> darkEdges w h bin \<longrightarrow> n \<in> marked visited))"

text \<open>
  The invariant of the scan: the marked pixels are dark and are whole components.
\<close>

definition scanInv :: "nat \<Rightarrow> nat \<Rightarrow> nat list \<Rightarrow> nat list \<Rightarrow> bool" where
  "scanInv w h bin visited =
     (length visited = w * h
    \<and> marked visited \<subseteq> darkPixels w h bin
    \<and> (\<forall>i \<in> marked visited. component w h bin i \<subseteq> marked visited))"

text \<open>The mask that \<open>analyzeStickyTrapImage\<close> builds from the buffer.\<close>

definition maskOf :: "nat \<Rightarrow> nat \<Rightarrow> nat list \<Rightarrow> nat list" where
  "maskOf w h data = fst (buildMask data 0 (replicate (w * h) 0, 0))"

section \<open>Properties of the image segmenter\<close>

lemma up_ok:
  assumes "cur < w * h" "cur div w > 0"
  shows "cur - w < w * h \<and> adjacent4 w cur (cur - w)"
proof -
  have w: "w > 0" using assms by (cases w) auto
  have ge: "w \<le> cur" using assms(2) w by (metis div_less not_le less_irrefl)
  have m: "(cur - w) mod w = cur mod w" using ge by (simp add: le_mod_geq)
  have d: "cur div w = Suc ((cur - w) div w)" using ge w by (simp add: le_div_geq)
  show ?thesis using assms m d by (simp add: adjacent4_def row_def col_def)
qed

lemma down_ok:
  assumes "cur < w * h" "int (cur div w) < int h - 1"
  shows "cur + w < w * h \<and> adjacent4 w cur (cur + w)"
proof -
  have w: "w > 0" using assms by (cases w) auto
  have "cur div w + 2 \<le> h" using assms(2) by linarith
  then have "w * (cur div w + 2) \<le> w * h" by (rule mult_le_mono2)
  moreover have "cur < w * (cur div w) + w"
    using w by (metis mod_less_divisor mult_div_mod_eq nat_add_left_cancel_less)
  ultimately have "cur + w < w * h" by (simp add: algebra_simps)
  moreover have "adjacent4 w cur (cur + w)"
    using w by (simp add: adjacent4_def row_def col_def)
  ultimately show ?thesis by simp
qed

lemma left_ok:
  assumes "cur < w * h" "cur mod w > 0"
  shows "cur - 1 < w * h \<and> adjacent4 w cur (cur - 1)"
proof -
  have w: "w > 0" using assms by (cases w) auto
  obtain c where c: "cur = Suc c" using assms(2) by (cases cur) auto
  have nz: "Suc c mod w \<noteq> 0" using assms(2) c by simp
  have m: "Suc c mod w = Suc (c mod w)" using nz by (simp add: mod_Suc split: if_splits)
  have d: "Suc c div w = c div w" using nz by (simp add: div_Suc split: if_splits)
  show ?thesis using assms c m d by (simp add: adjacent4_def row_def col_def)
qed

lemma right_ok:
  assumes "cur < w * h" "int (cur mod w) < int w - 1"
  shows "cur + 1 < w * h \<and> adjacent4 w cur (cur + 1)"
proof -
  have w: "w > 0" using assms by (cases w) auto
  have lt: "Suc (cur mod w) < w" using assms(2) by linarith
  have m: "Suc cur mod w = Suc (cur mod w)" using lt by (simp add: mod_Suc)
  have d: "Suc cur div w = cur div w" using lt by (simp add: div_Suc mod_Suc split: if_splits)
  have "Suc cur div w < h" using assms(1) d w by (simp add: less_mult_imp_div_less mult.commute)
  then have "Suc cur < w * h" using w
    by (metis div_less_iff_less_mult mult.commute)
  then show ?thesis using m d by (simp add: adjacent4_def row_def col_def)
qed

lemma tested_adjacent:
  assumes "cur < w * h"
  shows "set (tested w h cur) = {n. n < w * h \<and> adjacent4 w cur n}"
proof (intro set_eqI iffI)
  fix n assume "n \<in> set (tested w h cur)"
  then show "n \<in> {n. n < w * h \<and> adjacent4 w cur n}"
    using up_ok [OF assms] down_ok [OF assms] left_ok [OF assms] right_ok [OF assms]
    by (auto simp: tested_def split: if_splits)
next
  fix n assume "n \<in> {n. n < w * h \<and> adjacent4 w cur n}"
  then have n: "n < w * h" and a: "adjacent4 w cur n" by auto
  have w: "w > 0" using assms by (cases w) auto
  have ce: "cur = w * (cur div w) + cur mod w" by simp
  have ne: "n = w * (n div w) + n mod w" by simp
  have nh: "n div w < h" using n w by (simp add: less_mult_imp_div_less mult.commute)
  have nw: "n mod w < w" and cw: "cur mod w < w" using w by auto
  from a consider
      (r) "cur div w = n div w" "cur mod w + 1 = n mod w"
    | (l) "cur div w = n div w" "n mod w + 1 = cur mod w"
    | (d) "cur mod w = n mod w" "cur div w + 1 = n div w"
    | (u) "cur mod w = n mod w" "n div w + 1 = cur div w"
    by (auto simp: adjacent4_def row_def col_def)
  then show "n \<in> set (tested w h cur)"
  proof cases
    case r
    have "n = cur + 1" using ce ne r by (metis add.assoc)
    moreover have "int (cur mod w) < int w - 1" using r nw by linarith
    ultimately show ?thesis by (simp add: tested_def)
  next
    case l
    have "cur = n + 1" using ce ne l by (metis add.assoc)
    moreover have "cur mod w > 0" using l by linarith
    ultimately show ?thesis by (simp add: tested_def)
  next
    case d
    have "n = w * (cur div w + 1) + cur mod w" using ne d by simp
    then have "n = cur + w" using ce by (simp add: algebra_simps)
    moreover have "int (cur div w) < int h - 1" using d nh by linarith
    ultimately show ?thesis by (simp add: tested_def)
  next
    case u
    have "cur = w * (n div w + 1) + n mod w" using ce u by simp
    then have "cur = n + w" using ne by (simp add: algebra_simps)
    moreover have "cur div w > 0" using u by linarith
    ultimately show ?thesis by (simp add: tested_def)
  qed
qed

lemma isNewDark_iff:
  assumes "length bin = w * h" "length visited = w * h"
  shows "isNewDark bin visited n \<longleftrightarrow> n \<in> darkPixels w h bin \<and> n \<notin> marked visited"
  using assms by (auto simp: isNewDark_def readAt_def darkPixels_def marked_def)

lemma marked_update:
  "n < length visited \<Longrightarrow> marked (visited[n := 1]) = insert n (marked visited)"
  by (auto simp: marked_def nth_list_update)

lemma darkPixels_bound: "n \<in> darkPixels w h bin \<Longrightarrow> n < w * h"
  by (simp add: darkPixels_def)

lemma pushes_nil: "pushes D [] st st"
  by (cases st) (simp add: pushes_def)

lemma pushes_append:
  assumes "pushes D ns1 st0 st1" "pushes D ns2 st1 st2"
  shows "pushes D (ns1 @ ns2) st0 st2"
proof -
  obtain v0 s0 v1 s1 v2 s2 where st: "st0 = (v0, s0)" "st1 = (v1, s1)" "st2 = (v2, s2)"
    by (cases st0, cases st1, cases st2) auto
  from assms(1) st obtain new1 where
    a: "length v1 = length v0" "marked v1 = marked v0 \<union> (set ns1 \<inter> D)"
       "s1 = new1 @ s0" "distinct new1" "set new1 = (set ns1 \<inter> D) - marked v0"
    by (auto simp: pushes_def)
  from assms(2) st obtain new2 where
    b: "length v2 = length v1" "marked v2 = marked v1 \<union> (set ns2 \<inter> D)"
       "s2 = new2 @ s1" "distinct new2" "set new2 = (set ns2 \<inter> D) - marked v1"
    by (auto simp: pushes_def)
  have 1: "s2 = (new2 @ new1) @ s0" using a b by simp
  have 2: "distinct (new2 @ new1)" using a b by auto
  have 3: "set (new2 @ new1) = (set (ns1 @ ns2) \<inter> D) - marked v0" using a b by auto
  have 4: "marked v2 = marked v0 \<union> (set (ns1 @ ns2) \<inter> D)" using a b by auto
  have 5: "length v2 = length v0" using a b by simp
  show ?thesis unfolding st pushes_def using 1 2 3 4 5 by auto
qed

lemma pushes_visit:
  assumes "length bin = w * h" "length (fst st) = w * h"
  shows "pushes (darkPixels w h bin) [n] st (visit bin n st)"
proof -
  obtain visited stack where st: "st = (visited, stack)" by (cases st)
  have len: "length visited = w * h" using assms(2) st by simp
  show ?thesis
  proof (cases "isNewDark bin visited n")
    case True
    then have d: "n \<in> darkPixels w h bin" and m: "n \<notin> marked visited"
      using isNewDark_iff [OF assms(1) len] by auto
    have "n < length visited" using d len by (simp add: darkPixels_bound)
    then have "marked (visited[n := 1]) = insert n (marked visited)" by (rule marked_update)
    then show ?thesis using True d m st by (auto simp: visit_def pushes_def)
  next
    case False
    then have "n \<notin> darkPixels w h bin \<or> n \<in> marked visited"
      using isNewDark_iff [OF assms(1) len] by auto
    then show ?thesis using False st by (auto simp: visit_def pushes_def)
  qed
qed

lemma pushes_length: "pushes D ns st st' \<Longrightarrow> length (fst st') = length (fst st)"
  by (cases st, cases st') (simp add: pushes_def)

lemma pushes_if:
  assumes "length bin = w * h" "length (fst st) = w * h"
  shows "pushes (darkPixels w h bin) (if c then [n] else []) st (if c then visit bin n st else st)"
  using pushes_visit [OF assms] by (simp add: pushes_nil)

lemma cy_eq: "(cur - cur mod w) div w = cur div (w::nat)"
proof (cases "w = 0")
  case True then show ?thesis by simp
next
  case False
  then show ?thesis by (simp add: minus_mod_eq_mult_div)
qed

lemma pushes_expand:
  assumes "length bin = w * h" "length (fst st) = w * h"
  shows "pushes (darkPixels w h bin) (tested w h cur) st (expand w h bin cur st)"
proof -
  let ?D = "darkPixels w h bin"
  define s1 where "s1 = (if cur div w > 0 then visit bin (cur - w) st else st)"
  define s2 where "s2 = (if int (cur div w) < int h - 1 then visit bin (cur + w) s1 else s1)"
  define s3 where "s3 = (if cur mod w > 0 then visit bin (cur - 1) s2 else s2)"
  define s4 where "s4 = (if int (cur mod w) < int w - 1 then visit bin (cur + 1) s3 else s3)"
  have e: "expand w h bin cur st = s4"
    by (simp add: expand_def Let_def cy_eq s1_def s2_def s3_def s4_def)
  have p1: "pushes ?D (if cur div w > 0 then [cur - w] else []) st s1"
    unfolding s1_def by (rule pushes_if [OF assms])
  have l1: "length (fst s1) = w * h" using pushes_length [OF p1] assms(2) by simp
  have p2: "pushes ?D (if int (cur div w) < int h - 1 then [cur + w] else []) s1 s2"
    unfolding s2_def by (rule pushes_if [OF assms(1) l1])
  have l2: "length (fst s2) = w * h" using pushes_length [OF p2] l1 by simp
  have p3: "pushes ?D (if cur mod w > 0 then [cur - 1] else []) s2 s3"
    unfolding s3_def by (rule pushes_if [OF assms(1) l2])
  have l3: "length (fst s3) = w * h" using pushes_length [OF p3] l2 by simp
  have p4: "pushes ?D (if int (cur mod w) < int w - 1 then [cur + 1] else []) s3 s4"
    unfolding s4_def by (rule pushes_if [OF assms(1) l3])
  have "pushes ?D (tested w h cur) st s4"
    unfolding tested_def
    by (rule pushes_append [OF p1 pushes_append [OF p2 pushes_append [OF p3 p4]]])
  then show ?thesis by (simp only: e)
qed

lemma adjacent4_sym: "adjacent4 w i j \<Longrightarrow> adjacent4 w j i"
  by (auto simp: adjacent4_def)

lemma sym_darkEdges: "sym (darkEdges w h bin)"
  by (auto simp: sym_def darkEdges_def adjacent4_sym)

lemma finite_darkPixels: "finite (darkPixels w h bin)"
  by (simp add: darkPixels_def)

lemma finite_marked: "finite (marked visited)"
  by (simp add: marked_def)

lemma component_refl: "i \<in> component w h bin i"
  by (simp add: component_def)

lemma component_step:
  "j \<in> component w h bin i \<Longrightarrow> (j, k) \<in> darkEdges w h bin \<Longrightarrow> k \<in> component w h bin i"
  by (auto simp: component_def intro: rtrancl_into_rtrancl)

lemma component_dark:
  assumes "i \<in> darkPixels w h bin" "j \<in> component w h bin i"
  shows "j \<in> darkPixels w h bin"
proof -
  from assms(2) have "(i, j) \<in> (darkEdges w h bin)\<^sup>*" by (simp add: component_def)
  then show ?thesis using assms(1)
    by (induction rule: rtrancl_induct) (auto simp: darkEdges_def)
qed

lemma component_eq:
  assumes "j \<in> component w h bin i"
  shows "component w h bin j = component w h bin i"
proof -
  from assms have ij: "(i, j) \<in> (darkEdges w h bin)\<^sup>*" by (simp add: component_def)
  have "sym ((darkEdges w h bin)\<^sup>*)" by (rule sym_rtrancl [OF sym_darkEdges])
  then have ji: "(j, i) \<in> (darkEdges w h bin)\<^sup>*" using ij by (rule symD)
  show ?thesis unfolding component_def
    using ij ji by (auto intro: rtrancl_trans)
qed

lemma component_closed_subset:
  assumes "s \<in> P" and "\<And>p n. p \<in> P \<Longrightarrow> (p, n) \<in> darkEdges w h bin \<Longrightarrow> n \<in> P"
  shows "component w h bin s \<subseteq> P"
proof
  fix j assume "j \<in> component w h bin s"
  then have "(s, j) \<in> (darkEdges w h bin)\<^sup>*" by (simp add: component_def)
  then show "j \<in> P"
    by (induction rule: rtrancl_induct) (use assms in auto)
qed

lemma finite_component: "i \<in> darkPixels w h bin \<Longrightarrow> finite (component w h bin i)"
  by (rule finite_subset [OF _ finite_darkPixels]) (auto dest: component_dark)

lemma successors_tested:
  assumes "cur \<in> darkPixels w h bin"
  shows "set (tested w h cur) \<inter> darkPixels w h bin = {n. (cur, n) \<in> darkEdges w h bin}"
  using assms tested_adjacent [of cur w h]
  by (auto simp: darkEdges_def darkPixels_def)

lemma step_sets:
  assumes "distinct (cur # rest)" "set (cur # rest) \<subseteq> V" "cur \<notin> V0"
    and "V' = V \<union> TD" "distinct new" "set new = TD - V"
  shows "V' - V0 - set (new @ rest) = insert cur (V - V0 - set (cur # rest))"
    and "cur \<notin> V - V0 - set (cur # rest)"
    and "distinct (new @ rest)"
    and "set (new @ rest) \<subseteq> V'"
  using assms by auto

lemma step_measure:
  assumes "finite D" "distinct new" "set new = TD - V" "TD \<subseteq> D" "V' = V \<union> TD"
  shows "2 * card (D - V') + length (new @ rest) < 2 * card (D - V) + length (cur # rest)"
proof -
  have sub: "set new \<subseteq> D - V" using assms by auto
  have "D - V' = (D - V) - set new" using assms by auto
  then have "card (D - V') = card (D - V) - card (set new)"
    using sub assms(1) by (simp add: card_Diff_subset finite_subset [OF sub])
  moreover have "card (set new) \<le> card (D - V)"
    using sub assms(1) by (simp add: card_mono)
  moreover have "card (set new) = length new" using assms(2) by (rule distinct_card)
  ultimately show ?thesis by simp
qed

lemma fill_total:
  assumes bin: "length bin = w * h"
    and s: "s \<in> darkPixels w h bin"
    and dis: "V0 \<inter> component w h bin s = {}"
  shows "fillInv w h bin V0 s visited stack sz \<Longrightarrow>
     \<exists>visited'. floodFill w h bin visited stack sz = Some (visited', card (component w h bin s))
        \<and> length visited' = w * h
        \<and> marked visited' = V0 \<union> component w h bin s"
proof (induction "2 * card (darkPixels w h bin - marked visited) + length stack"
         arbitrary: visited stack sz rule: less_induct)
  case less
  let ?D = "darkPixels w h bin"
  let ?C = "component w h bin s"
  let ?V = "marked visited"
  note inv = less.prems
  have len: "length visited = w * h" and dst: "distinct stack"
    and stC: "set stack \<subseteq> ?C" and stV: "set stack \<subseteq> ?V"
    and V0V: "V0 \<subseteq> ?V" and VC: "?V \<subseteq> V0 \<union> ?C" and sV: "s \<in> ?V"
    and sz: "sz = card (?V - V0 - set stack)"
    and closed: "\<And>p n. p \<in> ?V - V0 - set stack \<Longrightarrow> (p, n) \<in> darkEdges w h bin \<Longrightarrow> n \<in> ?V"
    using inv by (auto simp: fillInv_def)
  show ?case
  proof (cases stack)
    case Nil
    have sC: "s \<in> ?C" by (rule component_refl)
    have sP: "s \<in> ?V - V0" using sV sC dis by auto
    have cl: "n \<in> ?V - V0" if "p \<in> ?V - V0" "(p, n) \<in> darkEdges w h bin" for p n
    proof -
      have "n \<in> ?V" using closed [of p n] that Nil by simp
      moreover have "p \<in> ?C" using that(1) VC by auto
      then have "n \<in> ?C" using that(2) by (rule component_step)
      ultimately show ?thesis using dis by auto
    qed
    have "?C \<subseteq> ?V - V0" by (rule component_closed_subset [OF sP cl])
    moreover have "?V - V0 \<subseteq> ?C" using VC by auto
    ultimately have eq: "?V - V0 = ?C" by auto
    have "sz = card ?C" using sz Nil eq by simp
    moreover have "?V = V0 \<union> ?C" using eq V0V by auto
    ultimately show ?thesis using Nil len by (simp add: floodFill.simps)
  next
    case (Cons cur rest)
    obtain visited' stack' where ex: "expand w h bin cur (visited, rest) = (visited', stack')"
      by (cases "expand w h bin cur (visited, rest)")
    have "pushes ?D (tested w h cur) (visited, rest) (expand w h bin cur (visited, rest))"
      by (rule pushes_expand [OF bin]) (simp add: len)
    then obtain new where
      len': "length visited' = w * h"
      and V': "marked visited' = ?V \<union> (set (tested w h cur) \<inter> ?D)"
      and st': "stack' = new @ rest" and dnew: "distinct new"
      and snew: "set new = (set (tested w h cur) \<inter> ?D) - ?V"
      unfolding ex pushes_def using len by auto
    let ?TD = "set (tested w h cur) \<inter> ?D"
    have curC: "cur \<in> ?C" using stC Cons by simp
    have curD: "cur \<in> ?D" by (rule component_dark [OF s curC])
    have TD: "?TD = {n. (cur, n) \<in> darkEdges w h bin}" by (rule successors_tested [OF curD])
    have TDC: "?TD \<subseteq> ?C" using TD curC by (auto intro: component_step)
    have cur0: "cur \<notin> V0" using curC dis by auto
    have d1: "distinct (cur # rest)" using dst Cons by simp
    have d2: "set (cur # rest) \<subseteq> ?V" using stV Cons by simp
    note ss = step_sets [OF d1 d2 cur0 V' dnew snew]
    have P': "marked visited' - V0 - set stack' = insert cur (?V - V0 - set stack)"
      using ss(1) st' Cons by simp
    have curP: "cur \<notin> ?V - V0 - set stack" using ss(2) Cons by simp
    have fin: "finite (?V - V0 - set stack)" using finite_marked by auto
    have sz': "sz + 1 = card (marked visited' - V0 - set stack')"
      unfolding P' using sz curP fin by simp
    have closed': "n \<in> marked visited'"
      if "p \<in> marked visited' - V0 - set stack'" "(p, n) \<in> darkEdges w h bin" for p n
    proof (cases "p = cur")
      case True
      then have "n \<in> ?TD" using that(2) TD by simp
      then show ?thesis using V' by simp
    next
      case False
      then have "p \<in> ?V - V0 - set stack" using that(1) P' by simp
      then have "n \<in> ?V" using that(2) by (rule closed)
      then show ?thesis using V' by simp
    qed
    have inv': "fillInv w h bin V0 s visited' stack' (sz + 1)"
      unfolding fillInv_def
    proof (intro conjI)
      show "length visited' = w * h" by (rule len')
      show "distinct stack'" using ss(3) st' by simp
      show "set stack' \<subseteq> ?C" using st' snew TDC stC Cons by auto
      show "set stack' \<subseteq> marked visited'" using ss(4) st' by simp
      show "V0 \<subseteq> marked visited'" using V0V V' by auto
      show "marked visited' \<subseteq> V0 \<union> ?C" using VC V' TDC by auto
      show "s \<in> marked visited'" using sV V' by simp
      show "sz + 1 = card (marked visited' - V0 - set stack')" by (rule sz')
      show "\<forall>p\<in>marked visited' - V0 - set stack'.
              \<forall>n. (p, n) \<in> darkEdges w h bin \<longrightarrow> n \<in> marked visited'"
        using closed' by blast
    qed
    have "2 * card (?D - marked visited') + length (new @ rest)
            < 2 * card (?D - ?V) + length (cur # rest)"
      by (rule step_measure [OF finite_darkPixels dnew snew _ V']) simp
    then have m: "2 * card (?D - marked visited') + length stack'
            < 2 * card (?D - ?V) + length stack"
      using st' Cons by simp
    from less.hyps [OF m inv'] obtain vis'' where
      "floodFill w h bin visited' stack' (sz + 1) = Some (vis'', card ?C)"
      "length vis'' = w * h" "marked vis'' = V0 \<union> ?C"
      by blast
    moreover have "floodFill w h bin visited stack sz = floodFill w h bin visited' stack' (sz + 1)"
      by (subst floodFill.simps) (simp add: Cons ex)
    ultimately show ?thesis by simp
  qed
qed

lemma scanInv_disjoint:
  assumes "scanInv w h bin visited" "i \<notin> marked visited"
  shows "marked visited \<inter> component w h bin i = {}"
proof (rule ccontr)
  assume "marked visited \<inter> component w h bin i \<noteq> {}"
  then obtain j where j: "j \<in> marked visited" "j \<in> component w h bin i" by auto
  have "component w h bin j \<subseteq> marked visited" using assms(1) j(1) by (simp add: scanInv_def)
  moreover have "component w h bin j = component w h bin i" by (rule component_eq [OF j(2)])
  ultimately show False using component_refl [of i w h bin] assms(2) by auto
qed

lemma scanInv_grow:
  assumes "scanInv w h bin visited" "i \<in> darkPixels w h bin"
    and "length visited' = w * h" "marked visited' = marked visited \<union> component w h bin i"
  shows "scanInv w h bin visited'"
  unfolding scanInv_def
proof (intro conjI ballI)
  show "length visited' = w * h" by (rule assms(3))
  show "marked visited' \<subseteq> darkPixels w h bin"
    using assms by (auto simp: scanInv_def dest: component_dark)
  fix j assume "j \<in> marked visited'"
  then consider "j \<in> marked visited" | "j \<in> component w h bin i" using assms(4) by auto
  then show "component w h bin j \<subseteq> marked visited'"
  proof cases
    case 1
    then show ?thesis using assms(1,4) by (auto simp: scanInv_def)
  next
    case 2
    then show ?thesis using assms(4) component_eq [OF 2] by auto
  qed
qed

lemma seedStep_reference:
  assumes bin: "length bin = w * h" and inv: "scanInv w h bin visited"
  shows "\<exists>visited'. seedStep w h bin i (visited, components)
            = Some (visited', components @ referenceFill w h bin [i] (marked visited))
        \<and> scanInv w h bin visited'
        \<and> marked visited' = (if i \<in> darkPixels w h bin \<and> i \<notin> marked visited
                              then marked visited \<union> component w h bin i else marked visited)"
proof -
  let ?D = "darkPixels w h bin"
  let ?C = "component w h bin i"
  let ?V = "marked visited"
  have len: "length visited = w * h" using inv by (simp add: scanInv_def)
  show ?thesis
  proof (cases "isNewDark bin visited i")
    case False
    then have "\<not> (i \<in> ?D \<and> i \<notin> ?V)" using isNewDark_iff [OF bin len] by simp
    then show ?thesis using False inv by (auto simp: seedStep_def)
  next
    case True
    then have iD: "i \<in> ?D" and iV: "i \<notin> ?V" using isNewDark_iff [OF bin len] by auto
    have dis: "?V \<inter> ?C = {}" by (rule scanInv_disjoint [OF inv iV])
    have ilt: "i < length visited" using iD len by (simp add: darkPixels_bound)
    have m1: "marked (visited[i := 1]) = insert i ?V" by (rule marked_update [OF ilt])
    have e: "insert i ?V - ?V - {i} = {}" by auto
    have e': "insert i ?V - ?V - set [i] = {}" by auto
    have finv: "fillInv w h bin ?V i (visited[i := 1]) [i] 0"
      unfolding fillInv_def m1 e'
      using len component_refl [of i w h bin] by auto
    from fill_total [OF bin iD dis finv] obtain visited' where
      f: "floodFill w h bin (visited[i := 1]) [i] 0 = Some (visited', card ?C)"
      and l': "length visited' = w * h" and m': "marked visited' = ?V \<union> ?C"
      by blast
    have inv': "scanInv w h bin visited'" by (rule scanInv_grow [OF inv iD l' m'])
    have "seedStep w h bin i (visited, components)
            = Some (visited', components @ referenceFill w h bin [i] ?V)"
      using True f iD iV by (simp add: seedStep_def MIN_BLOB_SIZE_def Let_def)
    then show ?thesis using inv' m' iD iV by simp
  qed
qed

lemma forEach_seedStep:
  assumes bin: "length bin = w * h"
  shows "scanInv w h bin visited \<Longrightarrow>
     \<exists>visited'. forEach (seedStep w h bin) ord (visited, components)
            = Some (visited', components @ referenceFill w h bin ord (marked visited))
        \<and> scanInv w h bin visited'"
proof (induction ord arbitrary: visited components)
  case Nil
  then show ?case by simp
next
  case (Cons i ord)
  from seedStep_reference [OF bin Cons.prems, of i components] obtain v1 where
    s: "seedStep w h bin i (visited, components)
          = Some (v1, components @ referenceFill w h bin [i] (marked visited))"
    and inv1: "scanInv w h bin v1"
    and m1: "marked v1 = (if i \<in> darkPixels w h bin \<and> i \<notin> marked visited
                          then marked visited \<union> component w h bin i else marked visited)"
    by blast
  from Cons.IH [OF inv1, of "components @ referenceFill w h bin [i] (marked visited)"]
  obtain v2 where
    f: "forEach (seedStep w h bin) ord
          (v1, components @ referenceFill w h bin [i] (marked visited))
        = Some (v2, (components @ referenceFill w h bin [i] (marked visited))
                    @ referenceFill w h bin ord (marked v1))"
    and inv2: "scanInv w h bin v2"
    by blast
  have "referenceFill w h bin [i] (marked visited) @ referenceFill w h bin ord (marked v1)
          = referenceFill w h bin (i # ord) (marked visited)"
    using m1 by (simp add: Let_def)
  then show ?case using s f inv2 by simp
qed

lemma forEach_map_st: "forEach body (map g xs) st = forEach (\<lambda>x. body (g x)) xs st"
  by (induction xs arbitrary: st) (auto split: option.splits)

lemma forEach_map: "forEach body (map g xs) = forEach (\<lambda>x. body (g x)) xs"
  by (rule ext) (rule forEach_map_st)

lemma forEach_append:
  "forEach body (xs @ ys) st
     = (case forEach body xs st of None \<Rightarrow> None | Some st' \<Rightarrow> forEach body ys st')"
  by (induction xs arbitrary: st) (auto split: option.splits)

lemma forEach_concat:
  "forEach body (concat xss) st = forEach (\<lambda>xs. forEach body xs) xss st"
  by (induction xss arbitrary: st) (auto simp: forEach_append split: option.splits)

lemma scan_loops_raster:
  "forEach (\<lambda>y. forEach (\<lambda>x. body (idx w x y)) [0..<w]) [0..<h] st
     = forEach body (rasterOrder w h) st"
  by (simp add: rasterOrder_def forEach_concat forEach_map idx_def)

lemma rasterOrder_upt: "rasterOrder w h = [0..<w * h]"
proof (induction h)
  case 0
  then show ?case by (simp add: rasterOrder_def)
next
  case (Suc h)
  have "map (\<lambda>x. h * w + x) [0..<w] = [h * w..<h * w + w]"
    using map_add_upt [of "h * w" w] by (simp add: add.commute)
  moreover have "[0..<w * h] @ [h * w..<h * w + w] = [0..<w * Suc h]"
    using upt_add_eq_append [of 0 "w * h" w] by (simp add: mult.commute add.commute)
  ultimately show ?case using Suc by (simp add: rasterOrder_def)
qed

lemma referenceFill_accepted: "c \<in> set (referenceFill w h bin ord seen) \<Longrightarrow> c \<ge> 10"
  by (induction ord arbitrary: seen) (auto simp: Let_def split: if_splits)

lemma referenceFill_count:
  assumes "\<forall>i \<in> seen. component w h bin i \<subseteq> seen"
    and "darkPixels w h bin - seen \<subseteq> set ord"
  shows "length (referenceFill w h bin ord seen)
           = card {C \<in> component w h bin ` (darkPixels w h bin - seen). card C \<ge> 10}"
  using assms
proof (induction ord arbitrary: seen)
  case Nil
  then have "darkPixels w h bin - seen = {}" by simp
  then show ?case by (simp only: image_empty) simp
next
  case (Cons p ord)
  let ?D = "darkPixels w h bin"
  let ?C = "component w h bin p"
  show ?case
  proof (cases "p \<in> ?D \<and> p \<notin> seen")
    case False
    then have "?D - seen \<subseteq> set ord" using Cons.prems(2) by auto
    from Cons.IH [OF Cons.prems(1) this] show ?thesis using False by auto
  next
    case True
    let ?seen' = "seen \<union> ?C"
    let ?X = "component w h bin ` (?D - ?seen')"
    have pC: "p \<in> ?C" by (rule component_refl)
    have c1: "\<forall>i \<in> ?seen'. component w h bin i \<subseteq> ?seen'"
      using Cons.prems(1) component_eq [of _ w h bin p] by auto
    have c2: "?D - ?seen' \<subseteq> set ord" using Cons.prems(2) pC by auto
    have ih: "length (referenceFill w h bin ord ?seen') = card {C \<in> ?X. card C \<ge> 10}"
      by (rule Cons.IH [OF c1 c2])
    have disj: "seen \<inter> ?C = {}"
    proof (rule ccontr)
      assume "seen \<inter> ?C \<noteq> {}"
      then obtain j where j: "j \<in> seen" "j \<in> ?C" by auto
      then have "component w h bin j \<subseteq> seen" using Cons.prems(1) by simp
      then show False using component_eq [OF j(2)] pC True by auto
    qed
    have split: "component w h bin ` (?D - seen) = insert ?C ?X"
    proof (intro set_eqI iffI)
      fix S assume "S \<in> component w h bin ` (?D - seen)"
      then obtain i where i: "i \<in> ?D" "i \<notin> seen" "S = component w h bin i" by auto
      show "S \<in> insert ?C ?X"
      proof (cases "i \<in> ?C")
        case True
        then show ?thesis using i component_eq [OF True] by simp
      next
        case False
        then show ?thesis using i by auto
      qed
    next
      fix S assume "S \<in> insert ?C ?X"
      then show "S \<in> component w h bin ` (?D - seen)" using True by auto
    qed
    have notin: "?C \<notin> ?X"
    proof
      assume "?C \<in> ?X"
      then obtain i where i: "i \<in> ?D" "i \<notin> ?seen'" "?C = component w h bin i" by auto
      then show False using component_refl [of i w h bin] by auto
    qed
    have finX: "finite {C \<in> ?X. card C \<ge> 10}"
      using finite_darkPixels [of w h bin] by simp
    have "card {C \<in> insert ?C ?X. card C \<ge> 10}
            = (if card ?C \<ge> 10 then 1 else 0) + card {C \<in> ?X. card C \<ge> 10}"
    proof (cases "card ?C \<ge> 10")
      case True
      then have "{C \<in> insert ?C ?X. card C \<ge> 10} = insert ?C {C \<in> ?X. card C \<ge> 10}" by auto
      then show ?thesis using True notin finX by simp
    next
      case False
      then have "{C \<in> insert ?C ?X. card C \<ge> 10} = {C \<in> ?X. card C \<ge> 10}" by auto
      then show ?thesis using False by simp
    qed
    then show ?thesis using True ih split by (simp add: Let_def)
  qed
qed

lemma length_buildMask: "length (fst (buildMask data i st)) = length (fst st)"
  by (induction data i st rule: buildMask.induct) auto

lemma marked_replicate: "marked (replicate n 0) = {}"
  by (simp add: marked_def)

lemma scanInv_initial: "scanInv w h bin (replicate (w * h) 0)"
  by (simp add: scanInv_def marked_replicate)

lemma scan_any_order:
  assumes "length bin = w * h"
  shows "\<exists>visited'. forEach (seedStep w h bin) ord (replicate (w * h) 0, [])
                       = Some (visited', referenceFill w h bin ord {})"
proof -
  from forEach_seedStep [OF assms scanInv_initial, of ord "[]"] obtain visited' where
    "forEach (seedStep w h bin) ord (replicate (w * h) 0, [])
       = Some (visited', [] @ referenceFill w h bin ord (marked (replicate (w * h) 0)))"
    by blast
  then have "forEach (seedStep w h bin) ord (replicate (w * h) 0, [])
       = Some (visited', referenceFill w h bin ord {})"
    by (simp only: marked_replicate append_Nil)
  then show ?thesis by blast
qed

lemma labelComponents_reference:
  assumes "length bin = w * h"
  shows "labelComponents w h bin = Some (referenceFill w h bin (rasterOrder w h) {})"
proof -
  from forEach_seedStep [OF assms scanInv_initial, of "rasterOrder w h" "[]"] obtain visited' where
    "forEach (seedStep w h bin) (rasterOrder w h) (replicate (w * h) 0, [])
       = Some (visited', [] @ referenceFill w h bin (rasterOrder w h) (marked (replicate (w * h) 0)))"
    by blast
  then have "forEach (seedStep w h bin) (rasterOrder w h) (replicate (w * h) 0, [])
       = Some (visited', referenceFill w h bin (rasterOrder w h) {})"
    by (simp only: marked_replicate append_Nil)
  then show ?thesis
    unfolding labelComponents_def Let_def scan_loops_raster
    by (simp only: option.case prod.case)
qed

lemma darkPixels_raster: "darkPixels w h bin \<subseteq> set (rasterOrder w h)"
  unfolding rasterOrder_upt by (auto simp: darkPixels_def)

lemma referenceFill_blobs:
  assumes "set ord = set (rasterOrder w h)"
  shows "length (referenceFill w h bin ord {}) = card (blobs w h bin)"
proof -
  have e: "\<forall>i \<in> {}. component w h bin i \<subseteq> {}" by simp
  have "darkPixels w h bin - {} \<subseteq> set ord"
    using darkPixels_raster [of w h bin] assms by simp
  from referenceFill_count [OF e this]
  have "length (referenceFill w h bin ord {})
          = card {C \<in> component w h bin ` (darkPixels w h bin - {}). 10 \<le> card C}" .
  then show ?thesis by (simp only: blobs_def Diff_empty)
qed

text \<open>
  C1. For every mask of an image of \<open>w\<close> by \<open>h\<close> pixels the labelling returns, and its
  result is what the reference flood fill computes in raster order: the sizes of the
  blobs, that is of the components of 4-adjacent dark pixels that have at least 10 pixels,
  in the raster order of their first pixels. The number of sizes, which is the
  \<^verbatim>\<open>blobCount\<close>, is the number of blobs, and the reference fill counts the same number
  for every permutation of the scan order, as does the scan of the code itself when it
  visits the seeds in that order. \<^verbatim>\<open>blobSizes\<close> is the first 50 sizes of the list, and
  \<^verbatim>\<open>blobCount\<close> counts the whole list.
\<close>

theorem segmenter_blob_count:
  assumes "length bin = w * h"
  shows "\<exists>components. labelComponents w h bin = Some components
       \<and> components = referenceFill w h bin (rasterOrder w h) {}
       \<and> length components = card (blobs w h bin)
       \<and> (\<forall>c \<in> set components. c \<ge> 10)
       \<and> (\<forall>ord. distinct ord \<and> set ord = set (rasterOrder w h) \<longrightarrow>
             length (referenceFill w h bin ord {}) = length components
           \<and> (\<exists>visited'. forEach (seedStep w h bin) ord (replicate (w * h) 0, [])
                               = Some (visited', referenceFill w h bin ord {})))
       \<and> (\<exists>r. analyzeStickyTrapImage w h data = Some r
             \<and> blobCount r = card (blobs w h (maskOf w h data))
             \<and> estimatedPestCount r = blobCount r
             \<and> blobSizes r = take 50 (referenceFill w h (maskOf w h data) (rasterOrder w h) {}))"
proof -
  have l: "labelComponents w h bin = Some (referenceFill w h bin (rasterOrder w h) {})"
    by (rule labelComponents_reference [OF assms])
  have c: "length (referenceFill w h bin ord {}) = card (blobs w h bin)"
    if "set ord = set (rasterOrder w h)" for ord
    by (rule referenceFill_blobs [OF that])
  have a: "\<forall>c \<in> set (referenceFill w h bin (rasterOrder w h) {}). c \<ge> 10"
    using referenceFill_accepted by blast
  have ml: "length (maskOf w h data) = w * h"
    by (simp add: maskOf_def length_buildMask)
  have lm: "labelComponents w h (maskOf w h data)
              = Some (referenceFill w h (maskOf w h data) (rasterOrder w h) {})"
    by (rule labelComponents_reference [OF ml])
  obtain b k where bm: "buildMask data 0 (replicate (w * h) 0, 0) = (b, k)"
    by (cases "buildMask data 0 (replicate (w * h) 0, 0)")
  have mb: "maskOf w h data = b" by (simp add: maskOf_def bm)
  have an: "\<exists>r. analyzeStickyTrapImage w h data = Some r
             \<and> blobCount r = card (blobs w h (maskOf w h data))
             \<and> estimatedPestCount r = blobCount r
             \<and> blobSizes r = take 50 (referenceFill w h (maskOf w h data) (rasterOrder w h) {})"
  proof -
    have "analyzeStickyTrapImage w h data
        = Some \<lparr>width = w, height = h, threshold = THRESHOLD, minBlobSize = MIN_BLOB_SIZE,
                 darkPixelRatio = (if w * h = 0 then None else Some (real k / real (w * h))),
                 blobCount = length (referenceFill w h b (rasterOrder w h) {}),
                 blobSizes = take 50 (referenceFill w h b (rasterOrder w h) {}),
                 estimatedPestCount = length (referenceFill w h b (rasterOrder w h) {})\<rparr>"
      unfolding analyzeStickyTrapImage_def bm prod.case Let_def lm [unfolded mb] option.case
      by (rule refl)
    moreover have "length (referenceFill w h b (rasterOrder w h) {}) = card (blobs w h b)"
      by (rule referenceFill_blobs [OF refl])
    ultimately show ?thesis unfolding mb by simp
  qed
  show ?thesis
  proof (rule exI [of _ "referenceFill w h bin (rasterOrder w h) {}"], intro conjI allI impI)
    show "labelComponents w h bin = Some (referenceFill w h bin (rasterOrder w h) {})"
      by (rule l)
    show "referenceFill w h bin (rasterOrder w h) {} = referenceFill w h bin (rasterOrder w h) {}"
      by (rule refl)
    show "length (referenceFill w h bin (rasterOrder w h) {}) = card (blobs w h bin)"
      by (rule c [OF refl])
    show "\<forall>c \<in> set (referenceFill w h bin (rasterOrder w h) {}). c \<ge> 10" by (rule a)
    show "length (referenceFill w h bin ord {})
            = length (referenceFill w h bin (rasterOrder w h) {})"
      if "distinct ord \<and> set ord = set (rasterOrder w h)" for ord
      using c [of ord] c [OF refl] that by simp
    show "\<exists>visited'. forEach (seedStep w h bin) ord (replicate (w * h) 0, [])
                               = Some (visited', referenceFill w h bin ord {})"
      if "distinct ord \<and> set ord = set (rasterOrder w h)" for ord
      by (rule scan_any_order [OF assms])
    show "\<exists>r. analyzeStickyTrapImage w h data = Some r
             \<and> blobCount r = card (blobs w h (maskOf w h data))
             \<and> estimatedPestCount r = blobCount r
             \<and> blobSizes r = take 50 (referenceFill w h (maskOf w h data) (rasterOrder w h) {})"
      by (rule an)
  qed
qed

theorem segmenter_blob_count_witness:
  "length [1, 1, 1, 1,  1, 1, 1, 1,  1, 1, 0, 0,  0, 0, 0, 1 :: nat] = 4 * 4
   \<and> labelComponents 4 4 [1, 1, 1, 1,  1, 1, 1, 1,  1, 1, 0, 0,  0, 0, 0, 1] = Some [10]
   \<and> card (blobs 4 4 [1, 1, 1, 1,  1, 1, 1, 1,  1, 1, 0, 0,  0, 0, 0, 1]) = 1
   \<and> length (referenceFill 4 4 [1, 1, 1, 1,  1, 1, 1, 1,  1, 1, 0, 0,  0, 0, 0, 1]
               (rev [0..<16]) {}) = 1"
proof -
  let ?bin = "[1, 1, 1, 1,  1, 1, 1, 1,  1, 1, 0, 0,  0, 0, 0, 1 :: nat]"
  have len: "length ?bin = 4 * 4" by simp
  have ev: "labelComponents 4 4 ?bin = Some [10]" by code_simp
  have ord: "distinct (rev [0..<16]) \<and> set (rev [0..<16]) = set (rasterOrder 4 4)"
    by (simp add: rasterOrder_upt)
  from segmenter_blob_count [OF len, of "[]"] obtain components where
    c: "labelComponents 4 4 ?bin = Some components"
       "length components = card (blobs 4 4 ?bin)"
       "\<forall>ord. distinct ord \<and> set ord = set (rasterOrder 4 4) \<longrightarrow>
             length (referenceFill 4 4 ?bin ord {}) = length components"
    by fastforce
  have "components = [10]" using c(1) ev by simp
  then show ?thesis using len ev c(2) c(3) ord by simp
qed

section \<open>Properties of the classifier\<close>

lemma clampCount_eq: "clampCount v = Some (clamped v)"
  by (cases v) (auto simp: clampCount_def js_or_def max_def)

lemma escalate_order:
  "order ! nat (min (indexOf order (category_name c) + 1) (int (length order) - 1))
     = category_name (escalate c)"
  by (cases c) (simp_all add: order_def)

lemma bucket_code:
  "(if js_le (Some c) (Some 2) then ''very low''
    else if js_le (Some c) (Some 5) then ''low''
    else if js_le (Some c) (Some 12) then ''moderate''
    else if js_le (Some c) (Some 25) then ''high''
    else ''very high'') = category_name (bucket c)"
  by (simp add: bucket_def)

lemma categorizePestAmount_eq: "categorizePestAmount cnt (JNum ratio) = classify cnt ratio"
  unfolding categorizePestAmount_def classify_def clampCount_eq Let_def bucket_code js_ge_def
  by (simp add: escalate_order)

lemma categorizePestAmount_any:
  "categorizePestAmount cnt dark
     = category_name (if js_ge (ToNumber dark) (Some 0.15) then escalate (bucket (clamped cnt))
                      else bucket (clamped cnt))"
  unfolding categorizePestAmount_def clampCount_eq Let_def bucket_code
  by (simp add: escalate_order)

text \<open>
  C2. For every count (a number, \<^verbatim>\<open>NaN\<close>, \<^verbatim>\<open>null\<close> or \<^verbatim>\<open>undefined\<close>) and every dark
  ratio, \<^verbatim>\<open>categorizePestAmount\<close> is the classifier of the specification: the count,
  clamped to 0 when negative or missing, is bucketed by the breakpoints 2, 5, 12 and 25,
  and the category moves up one step, capped at \<^verbatim>\<open>very high\<close>, exactly when the ratio
  is at least 0.15 (a ratio that is not a number is never at least 0.15). The four
  examples of the specification evaluate as it says.
\<close>

theorem categorizePestAmount_classify:
  "categorizePestAmount cnt (JNum ratio)
     = category_name (if ratio \<ge> 0.15 then escalate (bucket (clamped cnt))
                      else bucket (clamped cnt))
   \<and> categorizePestAmount cnt dark
     = category_name (if js_ge (ToNumber dark) (Some 0.15) then escalate (bucket (clamped cnt))
                      else bucket (clamped cnt))
   \<and> categorizePestAmount (JNum 0) (JNum 0.0) = ''very low''
   \<and> categorizePestAmount (JNum 3) (JNum 0.0) = ''low''
   \<and> categorizePestAmount (JNum 6) (JNum 0.16) = ''high''
   \<and> categorizePestAmount (JNum 100) (JNum 0.5) = ''very high''"
proof -
  have "categorizePestAmount (JNum 0) (JNum 0.0) = ''very low''
      \<and> categorizePestAmount (JNum 3) (JNum 0.0) = ''low''
      \<and> categorizePestAmount (JNum 6) (JNum 0.16) = ''high''
      \<and> categorizePestAmount (JNum 100) (JNum 0.5) = ''very high''"
    by (simp add: categorizePestAmount_eq classify_def bucket_def)
  moreover have "categorizePestAmount cnt (JNum ratio)
     = category_name (if ratio \<ge> 0.15 then escalate (bucket (clamped cnt))
                      else bucket (clamped cnt))"
    by (simp only: categorizePestAmount_eq classify_def)
  ultimately show ?thesis using categorizePestAmount_any [of cnt dark] by blast
qed

section \<open>Properties of the heat stress scorer\<close>

lemma airStep_tier: "airStep (JNum a) sc = sc + tierAbove airTiers a"
  by (simp add: airStep_def tierAbove_def airTiers_def js_gt_def)

lemma soilStep_tier: "soilStep (JNum a) sc = sc + tierAbove soilTiers a"
  by (simp add: soilStep_def tierAbove_def soilTiers_def js_gt_def)

lemma moistureStep_tier: "moistureStep (JNum a) sc = sc + tierBelow moistureTiers a"
  by (simp add: moistureStep_def tierBelow_def moistureTiers_def)

lemma humidityStep_tier: "humidityStep (JNum a) sc = sc + tierBelow humidityTiers a"
  by (simp add: humidityStep_def tierBelow_def humidityTiers_def)

lemma stressSum_tierSum: "stressSum (JNum a) (JNum s) (JNum m) (JNum r) = tierSum a s m r"
  by (simp add: stressSum_def tierSum_def airStep_tier soilStep_tier moistureStep_tier
        humidityStep_tier)

lemma airStep_range: "sc \<le> airStep a sc \<and> airStep a sc \<le> sc + 50"
  by (simp add: airStep_def)

lemma soilStep_range: "sc \<le> soilStep a sc \<and> soilStep a sc \<le> sc + 25"
  by (simp add: soilStep_def)

lemma moistureStep_range: "sc \<le> moistureStep a sc \<and> moistureStep a sc \<le> sc + 15"
  by (simp add: moistureStep_def)

lemma humidityStep_range: "sc \<le> humidityStep a sc \<and> humidityStep a sc \<le> sc + 10"
  by (simp add: humidityStep_def)

lemma stressSum_range: "0 \<le> stressSum a s m r \<and> stressSum a s m r \<le> 100"
proof -
  let ?a = "airStep a 0"
  let ?s = "soilStep s ?a"
  let ?m = "moistureStep m ?s"
  have "0 \<le> ?a \<and> ?a \<le> 50" using airStep_range [of 0 a] by simp
  moreover have "?a \<le> ?s \<and> ?s \<le> ?a + 25" by (rule soilStep_range)
  moreover have "?s \<le> ?m \<and> ?m \<le> ?s + 15" by (rule moistureStep_range)
  moreover have "?m \<le> humidityStep r ?m \<and> humidityStep r ?m \<le> ?m + 10"
    by (rule humidityStep_range)
  ultimately show ?thesis unfolding stressSum_def by linarith
qed

lemma stressLevel_cases:
  "stressLevel sc \<in> {''critical'', ''high'', ''moderate'', ''low'', ''minimal''}"
  by (simp add: stressLevel_def)

text \<open>
  C5. For real-valued inputs the score of \<^verbatim>\<open>computeHeatStressLevel\<close> is the sum of the
  four tier tables of the specification (air 10/20/35/50 above 25/30/32/35, soil 5/10/15/25
  above 24/26/28/30, moisture 5/10/15 below 40/30/20, humidity 5/10 below 50/30), clamped
  to the range from 0 to 100, and the level is critical from 70, high from 50, moderate
  from 30, low from 15 and minimal below.
\<close>

theorem heat_stress_tier_table:
  "stressSum (JNum a) (JNum s) (JNum m) (JNum r) = tierSum a s m r
   \<and> finalStressScore (JNum a) (JNum s) (JNum m) (JNum r) = max 0 (min 100 (tierSum a s m r))
   \<and> 0 \<le> finalStressScore (JNum a) (JNum s) (JNum m) (JNum r)
   \<and> finalStressScore (JNum a) (JNum s) (JNum m) (JNum r) \<le> 100
   \<and> computeHeatStressLevel (JNum a) (JNum s) (JNum m) (JNum r)
       = (if max 0 (min 100 (tierSum a s m r)) \<ge> 70 then ''critical''
          else if max 0 (min 100 (tierSum a s m r)) \<ge> 50 then ''high''
          else if max 0 (min 100 (tierSum a s m r)) \<ge> 30 then ''moderate''
          else if max 0 (min 100 (tierSum a s m r)) \<ge> 15 then ''low''
          else ''minimal'')"
proof -
  have t: "stressSum (JNum a) (JNum s) (JNum m) (JNum r) = tierSum a s m r"
    by (rule stressSum_tierSum)
  have rng: "0 \<le> tierSum a s m r \<and> tierSum a s m r \<le> 100"
    using stressSum_range [of "JNum a" "JNum s" "JNum m" "JNum r"] by (simp only: t)
  have f: "finalStressScore (JNum a) (JNum s) (JNum m) (JNum r) = max 0 (min 100 (tierSum a s m r))"
    using rng by (simp add: finalStressScore_def t)
  show ?thesis
    using rng by (simp add: t f computeHeatStressLevel_def stressLevel_def)
qed

text \<open>
  C6, as the code has it. For the inputs (36, 31, 15, 20) the points are 50 for the air
  temperature, 25 for the soil temperature (31 is above 30), 15 for the soil moisture and
  10 for the humidity: the sum is 100 and the level is critical. For (20, 20, 50, 60)
  the sum is 0 and the level is minimal.
\<close>

theorem heat_stress_examples:
  "airStep (JNum 36) 0 = 50 \<and> soilStep (JNum 31) 0 = 25 \<and> moistureStep (JNum 15) 0 = 15
   \<and> humidityStep (JNum 20) 0 = 10
   \<and> stressSum (JNum 36) (JNum 31) (JNum 15) (JNum 20) = 50 + 25 + 15 + 10
   \<and> finalStressScore (JNum 36) (JNum 31) (JNum 15) (JNum 20) = 100
   \<and> computeHeatStressLevel (JNum 36) (JNum 31) (JNum 15) (JNum 20) = ''critical''
   \<and> stressSum (JNum 20) (JNum 20) (JNum 50) (JNum 60) = 0
   \<and> finalStressScore (JNum 20) (JNum 20) (JNum 50) (JNum 60) = 0
   \<and> computeHeatStressLevel (JNum 20) (JNum 20) (JNum 50) (JNum 60) = ''minimal''"
  by (simp add: computeHeatStressLevel_def finalStressScore_def stressSum_def airStep_def
        soilStep_def moistureStep_def humidityStep_def js_gt_def stressLevel_def)

text \<open>
  C6 as the specification states it fails: the sum for (36, 31, 15, 20) is not 90, and
  the soil temperature does not contribute 15.
\<close>

theorem heat_stress_sum_counterexample:
  "stressSum (JNum 36) (JNum 31) (JNum 15) (JNum 20) \<noteq> 50 + 15 + 15 + 10
   \<and> stressSum (JNum 36) (JNum 31) (JNum 15) (JNum 20) \<noteq> 90
   \<and> soilStep (JNum 31) 0 \<noteq> 15"
  by (simp add: stressSum_def airStep_def soilStep_def moistureStep_def humidityStep_def
        js_gt_def)

text \<open>
  C10. The scorer has no failing branch. A reading that is \<^verbatim>\<open>undefined\<close> (missing) or
  \<^verbatim>\<open>NaN\<close> makes every comparison false and leaves the score as it was, whichever of the
  four readings it is; the result is always one of the five levels, and it is minimal when
  all four readings are missing. The request handler, not the scorer, rejects such a
  reading with status 400.
\<close>

theorem heat_stress_missing_inputs:
  assumes "v \<in> {JUndefined, JNaN}"
  shows "\<not> js_gt (ToNumber v) c \<and> \<not> js_lt (ToNumber v) c
       \<and> airStep v sc = sc \<and> soilStep v sc = sc \<and> moistureStep v sc = sc
       \<and> humidityStep v sc = sc
       \<and> computeHeatStressLevel a s m r \<in> {''critical'', ''high'', ''moderate'', ''low'', ''minimal''}
       \<and> computeHeatStressLevel JUndefined JUndefined JUndefined JUndefined = ''minimal''
       \<and> computeHeatStressLevel v v v v = ''minimal''
       \<and> submitMicroclimate v s m r = Inl (400, ''All microclimate values are required'')
       \<and> submitMicroclimate a v m r = Inl (400, ''All microclimate values are required'')
       \<and> submitMicroclimate a s v r = Inl (400, ''All microclimate values are required'')
       \<and> submitMicroclimate a s m v = Inl (400, ''All microclimate values are required'')"
proof -
  have n: "ToNumber v = None" and t: "\<not> truthy v" using assms by auto
  have cmp: "\<not> js_gt (ToNumber v) c \<and> \<not> js_lt (ToNumber v) c"
    by (simp add: n js_gt_def)
  have steps: "airStep v sc = sc \<and> soilStep v sc = sc \<and> moistureStep v sc = sc
       \<and> humidityStep v sc = sc" for sc
    by (simp add: n airStep_def soilStep_def moistureStep_def humidityStep_def js_gt_def)
  have lv: "computeHeatStressLevel a s m r \<in> {''critical'', ''high'', ''moderate'', ''low'', ''minimal''}"
    unfolding computeHeatStressLevel_def by (rule stressLevel_cases)
  have und: "computeHeatStressLevel JUndefined JUndefined JUndefined JUndefined = ''minimal''"
    by (simp add: computeHeatStressLevel_def finalStressScore_def stressSum_def airStep_def
          soilStep_def moistureStep_def humidityStep_def js_gt_def stressLevel_def)
  have all: "computeHeatStressLevel v v v v = ''minimal''"
    by (simp add: computeHeatStressLevel_def finalStressScore_def stressSum_def steps
          stressLevel_def)
  have sub: "submitMicroclimate v s m r = Inl (400, ''All microclimate values are required'')
       \<and> submitMicroclimate a v m r = Inl (400, ''All microclimate values are required'')
       \<and> submitMicroclimate a s v r = Inl (400, ''All microclimate values are required'')
       \<and> submitMicroclimate a s m v = Inl (400, ''All microclimate values are required'')"
    by (simp add: submitMicroclimate_def t)
  show ?thesis using cmp steps [of sc] lv und all sub by blast
qed

theorem heat_stress_missing_inputs_witness:
  "JNaN \<in> {JUndefined, JNaN}
   \<and> airStep JNaN 0 = 0 \<and> moistureStep JNaN 75 = 75
   \<and> computeHeatStressLevel JNaN JNaN JNaN JNaN = ''minimal''
   \<and> submitMicroclimate (JNum 36) JNaN (JNum 15) (JNum 20)
       = Inl (400, ''All microclimate values are required'')"
  using heat_stress_missing_inputs [of JNaN "Some 35" 0 "JNum 36" "JNum 31" "JNum 15" "JNum 20"]
    heat_stress_missing_inputs [of JNaN "Some 35" 75 "JNum 36" "JNum 31" "JNum 15" "JNum 20"]
  by simp

text \<open>
  \<^verbatim>\<open>null\<close> is not a missing reading for the comparisons: it converts to 0, which is
  below every moisture and humidity tier.
\<close>

lemma heat_stress_null_inputs:
  "moistureStep JNull sc = sc + 15 \<and> humidityStep JNull sc = sc + 10
   \<and> computeHeatStressLevel JNull JNull JNull JNull = ''low''"
  by (simp add: computeHeatStressLevel_def finalStressScore_def stressSum_def airStep_def
        soilStep_def moistureStep_def humidityStep_def js_gt_def stressLevel_def)

section \<open>Properties of the individual risk forecaster\<close>

lemma level_toPestAmount: "level (toPestAmount r) = levelOf r"
  by (simp add: toPestAmount_def levelOf_def clampCount_eq Let_def)

lemma pestLevel_le4: "pestLevel c \<le> 4"
  by (simp add: pestLevel_def)

lemma reduceWeights_sums:
  assumes "length lc = 5"
  shows "\<exists>lc'. reduceWeights (map toPestAmount rows) k (t, lc)
            = (t + (\<Sum>i<length rows. recencyWeight (k + i)), lc')
          \<and> length lc' = 5
          \<and> (\<forall>j<5. lc' ! j = lc ! j
                 + (\<Sum>i<length rows. if levelOf (rows ! i) = j then recencyWeight (k + i) else 0))"
  using assms
proof (induction rows arbitrary: k t lc)
  case Nil
  then show ?case by simp
next
  case (Cons r rows)
  define wt where "wt = exp (- real k * 0.2)"
  have wt: "wt = recencyWeight k" by (simp add: wt_def recencyWeight_def)
  define lc1 where "lc1 = (if levelOf r < 5 then lc[levelOf r := lc ! levelOf r + wt] else lc)"
  have len1: "length lc1 = 5" using Cons.prems by (simp add: lc1_def)
  have step: "reduceWeights (map toPestAmount (r # rows)) k (t, lc)
        = reduceWeights (map toPestAmount rows) (k + 1) (t + wt, lc1)"
  proof -
    have "levelOf r = 0 \<or> levelOf r = 1 \<or> levelOf r = 2 \<or> levelOf r = 3 \<or> levelOf r = 4"
      by (simp add: levelOf_def pestLevel_def)
    then show ?thesis
      by (elim disjE) (simp_all add: level_toPestAmount wt_def lc1_def Let_def)
  qed
  from Cons.IH [OF len1, of "k + 1" "t + wt"] obtain lc' where
    r: "reduceWeights (map toPestAmount rows) (k + 1) (t + wt, lc1)
          = (t + wt + (\<Sum>i<length rows. recencyWeight (k + 1 + i)), lc')"
    and l: "length lc' = 5"
    and v: "\<forall>j<5. lc' ! j = lc1 ! j
          + (\<Sum>i<length rows. if levelOf (rows ! i) = j then recencyWeight (k + 1 + i) else 0)"
    by blast
  have tot: "t + wt + (\<Sum>i<length rows. recencyWeight (k + 1 + i))
           = t + (\<Sum>i<length (r # rows). recencyWeight (k + i))"
    by (simp add: sum.lessThan_Suc_shift wt del: sum.lessThan_Suc)
  have each: "lc' ! j = lc ! j
        + (\<Sum>i<length (r # rows). if levelOf ((r # rows) ! i) = j then recencyWeight (k + i) else 0)"
    if "j < 5" for j
  proof -
    have "lc1 ! j = lc ! j + (if levelOf r = j then wt else 0)"
      using that Cons.prems by (auto simp: lc1_def)
    with v that show ?thesis
      by (simp add: sum.lessThan_Suc_shift wt del: sum.lessThan_Suc cong: if_cong)
  qed
  show ?case using step r l tot each by auto
qed

lemma weightedScoreLoop_sum:
  "weightedScoreLoop d = (\<Sum>k<5. d ! k / 100 * (real k / 4))"
proof -
  have u: "[0..<5] = [0, 1, 2, 3, 4]" by (simp add: upt_rec)
  have s: "{..<5::nat} = {0, 1, 2, 3, 4}" by auto
  show ?thesis unfolding weightedScoreLoop_def u s by (simp add: Let_def)
qed

lemma total_pos: "rows \<noteq> [] \<Longrightarrow> 0 < (\<Sum>i<length rows. recencyWeight i)"
  by (rule sum_pos) (auto simp: recencyWeight_def)

lemma clamp01_eq: "max 0 (min 1 x) = clamp01 x"
  by (simp add: clamp01_def max_def min_def)

lemma recent_test:
  assumes "rows \<noteq> []"
  shows "(length (map level (take (min 5 (length (map toPestAmount rows))) (map toPestAmount rows))) > 0
      \<and> real (length (filter (\<lambda>l. l \<le> 1) (map level (take (min 5 (length (map toPestAmount rows))) (map toPestAmount rows)))))
          \<ge> real (length (map level (take (min 5 (length (map toPestAmount rows))) (map toPestAmount rows)))) * 0.8)
     = recentCalm rows"
proof -
  have m: "map level (take n (map toPestAmount rows)) = map levelOf (take n rows)" for n
    by (simp add: take_map level_toPestAmount comp_def)
  have f: "length (filter (\<lambda>l. l \<le> 1) (map levelOf xs)) = length (filter (\<lambda>r. levelOf r \<le> 1) xs)" for xs
    by (induction xs) auto
  have pos: "0 < min 5 (length rows)" using assms by (cases rows) auto
  have r: "(real a \<ge> real b * 0.8) = (100 * a \<ge> 80 * b)" for a b :: nat
  proof -
    have "(real a \<ge> real b * 0.8) = (real (100 * a) \<ge> real (80 * b))" by (simp add: mult.commute)
    then show ?thesis by (simp only: of_nat_le_iff)
  qed
  show ?thesis unfolding m f r recentCalm_def Let_def using pos by simp
qed

lemma forecast_general:
  assumes "rows \<noteq> []"
  shows "riskScore (computeForecastForArea rows)
           = clamp01 (interpolated rows * majorityFactor rows * calmFactor rows)
       \<and> riskLevel (computeForecastForArea rows)
           = levelByThreshold (riskScore (computeForecastForArea rows))
       \<and> details (computeForecastForArea rows)
           = Distribution (length rows) (map (share rows) [0..<5]) (interpolated rows)"
proof -
  obtain lc where
    red: "reduceWeights (map toPestAmount rows) 0 (0, [0, 0, 0, 0, 0])
            = (\<Sum>i<length rows. recencyWeight i, lc)"
    and len: "length lc = 5"
    and val: "\<forall>j<5. lc ! j
            = (\<Sum>i<length rows. if levelOf (rows ! i) = j then recencyWeight i else 0)"
    using reduceWeights_sums [of "[0, 0, 0, 0, 0]" rows 0 0]
    by (auto simp: nth_Cons' cong: if_cong)
  define dist where "dist = map (\<lambda>c. (c / (\<Sum>i<length rows. recencyWeight i)) * 100) lc"
  have d: "dist ! j = share rows j" if "j < 5" for j
    using that len val by (simp add: dist_def share_def)
  have dl: "length dist = 5" by (simp add: dist_def len)
  have dmap: "dist = map (share rows) [0..<5]"
    by (rule nth_equalityI) (simp_all add: dl d)
  have w: "weightedScoreLoop dist = interpolated rows"
    by (simp add: weightedScoreLoop_sum interpolated_def d)
  have n0: "length rows \<noteq> 0" using assms by simp
  show ?thesis
    unfolding computeForecastForArea_def
    apply (simp only: n0 if_False Let_def red prod.case)
    apply (simp only: dist_def [symmetric])
    apply (simp only: recent_test [OF assms] clamp01_eq w d)
    apply (simp add: majorityFactor_def calmFactor_def computeRiskLevel_def levelByThreshold_def dmap)
    done
qed

lemma levelOf_100: "estimated_pest_count r = JNum 100 \<Longrightarrow> levelOf r = 4"
  by (simp add: levelOf_def pestLevel_def)

lemma share_all_same:
  assumes "n > 0" and "levelOf r = l"
  shows "share (replicate n r) k = (if k = l then 100 else 0)"
proof -
  have pos: "0 < (\<Sum>i<length (replicate n r). recencyWeight i)"
    by (rule total_pos) (use assms in auto)
  show ?thesis
  proof (cases "k = l")
    case True
    then have "(\<Sum>i<length (replicate n r). if levelOf (replicate n r ! i) = k then recencyWeight i else 0)
         = (\<Sum>i<length (replicate n r). recencyWeight i)"
      using assms by (intro sum.cong) auto
    then show ?thesis using True pos by (simp add: share_def)
  next
    case False
    then have "(\<Sum>i<length (replicate n r). if levelOf (replicate n r ! i) = k then recencyWeight i else 0) = 0"
      using assms by (intro sum.neutral) auto
    then show ?thesis using False by (simp add: share_def)
  qed
qed

lemma interpolated_all4:
  assumes "n > 0" and "levelOf r = 4"
  shows "interpolated (replicate n r) = 1"
proof -
  have s: "{..<5::nat} = {0, 1, 2, 3, 4}" by auto
  show ?thesis unfolding interpolated_def s
    by (simp add: share_all_same [OF assms])
qed

lemma majority_all4:
  assumes "n > 0" and "levelOf r = 4"
  shows "majorityFactor (replicate n r) = 1.3"
  by (simp add: majorityFactor_def share_all_same [OF assms])

lemma calm_all4:
  assumes "levelOf r = 4" and "n > 0"
  shows "calmFactor (replicate n r) = 1"
proof -
  have "filter (\<lambda>row. levelOf row \<le> 1) (replicate m r) = []" for m
    using assms by simp
  moreover have "take (min 5 n) (replicate n r) = replicate (min 5 n) r" by simp
  ultimately show ?thesis using assms
    by (simp add: calmFactor_def recentCalm_def Let_def del: take_replicate)
qed

text \<open>
  C3. For a history that is not empty, the risk score is the interpolated score of the
  weighted distribution, multiplied by the majority factor (0.5 when the shares of levels
  0 and 1 exceed 60, otherwise 1.3 when the shares of levels 3 and 4 exceed 40), multiplied
  by the recent-calm factor (0.4 when at least 80% of the latest min(5, n) readings have
  level at most 1), and clamped to the range from 0 to 1; the level is high from 0.8,
  medium from 0.5 and low below. For 20 readings of count 100 each, every level is 4, the
  share of level 4 is 100, the interpolated score is 1, the factor is 1.3, the clamped
  score is 1 and the level is high.
\<close>

theorem forecast_multipliers:
  assumes "rows \<noteq> []"
  shows "riskScore (computeForecastForArea rows)
           = clamp01 (interpolated rows * majorityFactor rows * calmFactor rows)
       \<and> riskLevel (computeForecastForArea rows)
           = levelByThreshold (riskScore (computeForecastForArea rows))
       \<and> details (computeForecastForArea rows)
           = Distribution (length rows) (map (share rows) [0..<5]) (interpolated rows)
       \<and> (estimated_pest_count r = JNum 100 \<longrightarrow>
            levelOf r = 4
          \<and> share (replicate 20 r) 4 = 100
          \<and> interpolated (replicate 20 r) = 1
          \<and> majorityFactor (replicate 20 r) = 1.3
          \<and> calmFactor (replicate 20 r) = 1
          \<and> riskScore (computeForecastForArea (replicate 20 r)) = 1
          \<and> riskLevel (computeForecastForArea (replicate 20 r)) = ''high'')"
proof -
  have ex: "levelOf r = 4
          \<and> share (replicate 20 r) 4 = 100
          \<and> interpolated (replicate 20 r) = 1
          \<and> majorityFactor (replicate 20 r) = 1.3
          \<and> calmFactor (replicate 20 r) = 1
          \<and> riskScore (computeForecastForArea (replicate 20 r)) = 1
          \<and> riskLevel (computeForecastForArea (replicate 20 r)) = ''high''"
    if c: "estimated_pest_count r = JNum 100"
  proof -
    have l: "levelOf r = 4" by (rule levelOf_100 [OF c])
    have ne: "replicate 20 r \<noteq> []" by simp
    have p: "(0::nat) < 20" by simp
    have sc: "riskScore (computeForecastForArea (replicate 20 r)) = 1"
      using forecast_general [OF ne]
      by (simp add: interpolated_all4 [OF p l] majority_all4 [OF p l] calm_all4 [OF l p] clamp01_def)
    have lv: "riskLevel (computeForecastForArea (replicate 20 r)) = ''high''"
      using forecast_general [OF ne] sc by (simp add: levelByThreshold_def)
    show ?thesis
      using l sc lv interpolated_all4 [OF p l] majority_all4 [OF p l] calm_all4 [OF l p]
        share_all_same [OF p l, of 4]
      by simp
  qed
  show ?thesis using forecast_general [OF assms] ex by blast
qed

theorem forecast_multipliers_witness:
  "riskScore (computeForecastForArea
       (replicate 20 \<lparr>created_at = None, dark_pixel_ratio = JNum 0.5, estimated_pest_count = JNum 100\<rparr>)) = 1
   \<and> riskLevel (computeForecastForArea
       (replicate 20 \<lparr>created_at = None, dark_pixel_ratio = JNum 0.5, estimated_pest_count = JNum 100\<rparr>)) = ''high''
   \<and> riskLevel (computeForecastForArea
       [\<lparr>created_at = None, dark_pixel_ratio = JNum 0.5, estimated_pest_count = JNum 100\<rparr>])
       = levelByThreshold (riskScore (computeForecastForArea
       [\<lparr>created_at = None, dark_pixel_ratio = JNum 0.5, estimated_pest_count = JNum 100\<rparr>]))"
  using forecast_multipliers
    [of "[\<lparr>created_at = None, dark_pixel_ratio = JNum 0.5, estimated_pest_count = JNum 100\<rparr>]"
        "\<lparr>created_at = None, dark_pixel_ratio = JNum 0.5, estimated_pest_count = JNum 100\<rparr>"]
  by simp

text \<open>
  C4. For an empty history the forecaster returns the risk score 0.1, the level low
  and details with the reason \<^verbatim>\<open>no_data\<close>.
\<close>

theorem forecast_empty:
  "computeForecastForArea []
     = \<lparr>riskScore = 0.1, riskLevel = ''low'', details = NoData ''no_data'' 0\<rparr>"
  by (simp add: computeForecastForArea_def computeRiskLevel_def Let_def)

section \<open>Properties of the community trend aggregator\<close>

lemma foldl_plus_sum_list: "foldl (\<lambda>acc amount. acc + amount) a xs = a + sum_list (xs :: nat list)"
  by (induction xs arbitrary: a) auto

lemma avg_mean:
  "real (foldl (\<lambda>acc amount. acc + amount) 0
           (map (\<lambda>row. pestLevel (clampCount (estimated_pest_count row))) rows))
     / real (length (map (\<lambda>row. pestLevel (clampCount (estimated_pest_count row))) rows))
   = meanOrdinal rows"
proof -
  have "real (sum_list (map (\<lambda>row. pestLevel (clampCount (estimated_pest_count row))) rows))
      = (\<Sum>row\<leftarrow>rows. real (levelOf row))"
    by (induction rows) (auto simp: levelOf_def clampCount_eq)
  then show ?thesis by (simp add: foldl_plus_sum_list meanOrdinal_def)
qed

lemma trendOf_cases:
  "fst (trendOf a) \<in> {''rising_significantly'', ''rising_moderately'', ''stable_moderate'', ''stable_low''}"
  by (simp add: trendOf_def)

lemma pest_body_nonempty:
  assumes f: "(if ft = ''recent'' then getCommunityPestDataRecent db areaId
               else getCommunityPestData db areaId) = Inr rows"
    and ne: "rows \<noteq> []"
    and c: "getCommunityUserCount db areaId = Inr (Some n)"
  shows "pestTrendBody areaId db ft now =
     Inr \<lparr>trend = fst (trendOf (meanOrdinal rows)), participation = n,
          confidence = the (map_of codeConfidence (fst (trendOf (meanOrdinal rows)))),
          recentActivity = SubmissionsInLast24Hours (recentCount now rows),
          totalSubmissions = Some (length rows),
          communityRiskLevel = snd (trendOf (meanOrdinal rows)),
          averagePestLevel = Some (meanOrdinal rows)\<rparr>"
proof -
  have n0: "length rows \<noteq> 0" using ne by simp
  show ?thesis
    unfolding pestTrendBody_def
    apply (simp only: f sum.case n0 if_False Let_def avg_mean c user_count_def option.case)
    apply (simp add: trendOf_def codeConfidence_def)
    done
qed

lemma pest_body_fetch_fails:
  "(if ft = ''recent'' then getCommunityPestDataRecent db areaId
    else getCommunityPestData db areaId) = Inl e
   \<Longrightarrow> pestTrendBody areaId db ft now = Inl e"
  by (simp only: pestTrendBody_def sum.case)

lemma pest_body_count_fails:
  assumes "(if ft = ''recent'' then getCommunityPestDataRecent db areaId
            else getCommunityPestData db areaId) = Inr rows"
    and "rows \<noteq> []"
    and "user_count (getCommunityUserCount db areaId) = Inl e"
  shows "pestTrendBody areaId db ft now = Inl e"
proof -
  have n0: "length rows \<noteq> 0" using assms(2) by simp
  show ?thesis
    unfolding pestTrendBody_def
    apply (simp only: assms(1) sum.case n0 if_False Let_def assms(3))
    apply (simp split: prod.splits)
    done
qed

lemma heat_body_fetch_fails:
  "(if ft = ''recent'' then getCommunityMicroclimateDataRecent db areaId
    else getCommunityMicroclimateData db areaId) = Inl e
   \<Longrightarrow> heatTrendBody areaId db ft now = Inl e"
  by (simp only: heatTrendBody_def sum.case)

lemma heat_body_count_fails:
  assumes "(if ft = ''recent'' then getCommunityMicroclimateDataRecent db areaId
            else getCommunityMicroclimateData db areaId) = Inr rows"
    and "rows \<noteq> []"
    and "user_count (getCommunityUserCountMicroclimate db areaId) = Inl e"
  shows "heatTrendBody areaId db ft now = Inl e"
proof -
  have n0: "length rows \<noteq> 0" using assms(2) by simp
  show ?thesis
    unfolding heatTrendBody_def
    apply (simp only: assms(1) sum.case n0 if_False Let_def assms(3))
    apply (simp split: prod.splits)
    done
qed

lemma pest_body_empty:
  "(if ft = ''recent'' then getCommunityPestDataRecent db areaId
    else getCommunityPestData db areaId) = Inr []
   \<Longrightarrow> pestTrendBody areaId db ft now =
       Inr \<lparr>trend = ''no_data'', participation = 0, confidence = ''low'',
            recentActivity = NoRecentSubmissions, totalSubmissions = None,
            communityRiskLevel = ''low'', averagePestLevel = None\<rparr>"
  by (simp only: pestTrendBody_def sum.case list.size if_True simp_thms)

lemma heat_body_empty:
  "(if ft = ''recent'' then getCommunityMicroclimateDataRecent db areaId
    else getCommunityMicroclimateData db areaId) = Inr []
   \<Longrightarrow> heatTrendBody areaId db ft now =
       Inr \<lparr>trend = ''no_data'', participation = 0, confidence = ''low'',
            recentActivity = NoRecentSubmissions, totalSubmissions = None,
            heatStressLevel = ''minimal'', averageAirTemp = None, averageHumidity = None\<rparr>"
  by (simp only: heatTrendBody_def sum.case list.size if_True simp_thms)

text \<open>
  C7, as the code has it. For a pest dataset that is not empty, with the participant count
  available, the trend label and the risk level follow the mean ordinal: from 3.5
  \<^verbatim>\<open>rising_significantly\<close> and high, from 2.5 \<^verbatim>\<open>rising_moderately\<close> and moderate, from
  1.5 \<^verbatim>\<open>stable_moderate\<close> and moderate, below \<^verbatim>\<open>stable_low\<close> and low. The confidence
  is looked up per trend label: high, medium, medium, high.
\<close>

theorem community_pest_trend_buckets:
  assumes "pestDataset db areaId filterType = Inr rows"
    and "rows \<noteq> []"
    and "getCommunityUserCount db areaId = Inr (Some n)"
  shows "trend (computeCommunityPestTrend areaId db filterType now) = fst (trendOf (meanOrdinal rows))
     \<and> communityRiskLevel (computeCommunityPestTrend areaId db filterType now)
         = snd (trendOf (meanOrdinal rows))
     \<and> map_of codeConfidence (trend (computeCommunityPestTrend areaId db filterType now))
         = Some (confidence (computeCommunityPestTrend areaId db filterType now))
     \<and> participation (computeCommunityPestTrend areaId db filterType now) = n"
proof -
  have "pestTrendBody areaId db (case filterType of None \<Rightarrow> ''recent'' | Some t \<Rightarrow> t) now =
     Inr \<lparr>trend = fst (trendOf (meanOrdinal rows)), participation = n,
          confidence = the (map_of codeConfidence (fst (trendOf (meanOrdinal rows)))),
          recentActivity = SubmissionsInLast24Hours (recentCount now rows),
          totalSubmissions = Some (length rows),
          communityRiskLevel = snd (trendOf (meanOrdinal rows)),
          averagePestLevel = Some (meanOrdinal rows)\<rparr>"
    by (rule pest_body_nonempty) (use assms in \<open>simp_all add: pestDataset_def\<close>)
  moreover have "map_of codeConfidence (fst (trendOf a))
       = Some (the (map_of codeConfidence (fst (trendOf a))))" for a
    by (simp add: trendOf_def codeConfidence_def)
  ultimately show ?thesis
    by (simp add: computeCommunityPestTrend_def)
qed

theorem community_pest_trend_buckets_witness:
  "trend (computeCommunityPestTrend ''PH''
      (fakeStore (Inr [\<lparr>created_at = Some 0, dark_pixel_ratio = JNum 0.1, estimated_pest_count = JNum 6\<rparr>])
         (Inr (Some 3)) (Inr []) (Inr (Some 0))) None 0) = ''stable_moderate''
   \<and> communityRiskLevel (computeCommunityPestTrend ''PH''
      (fakeStore (Inr [\<lparr>created_at = Some 0, dark_pixel_ratio = JNum 0.1, estimated_pest_count = JNum 6\<rparr>])
         (Inr (Some 3)) (Inr []) (Inr (Some 0))) None 0) = ''moderate''
   \<and> participation (computeCommunityPestTrend ''PH''
      (fakeStore (Inr [\<lparr>created_at = Some 0, dark_pixel_ratio = JNum 0.1, estimated_pest_count = JNum 6\<rparr>])
         (Inr (Some 3)) (Inr []) (Inr (Some 0))) None 0) = 3"
  using community_pest_trend_buckets [of
      "fakeStore (Inr [\<lparr>created_at = Some 0, dark_pixel_ratio = JNum 0.1, estimated_pest_count = JNum 6\<rparr>])
         (Inr (Some 3)) (Inr []) (Inr (Some 0))"
      "''PH''" None
      "[\<lparr>created_at = Some 0, dark_pixel_ratio = JNum 0.1, estimated_pest_count = JNum 6\<rparr>]" 3 0]
  by (simp add: pestDataset_def fakeStore_def meanOrdinal_def levelOf_def pestLevel_def trendOf_def)

text \<open>
  C7 as the specification states it fails: for one reading of count 6 the trend is
  \<^verbatim>\<open>stable_moderate\<close>, for which the specification lists the confidence high, and the
  code answers medium.
\<close>

theorem community_confidence_counterexample:
  "map_of specConfidence (trend (computeCommunityPestTrend ''PH''
      (fakeStore (Inr [\<lparr>created_at = Some 0, dark_pixel_ratio = JNum 0.1, estimated_pest_count = JNum 6\<rparr>])
         (Inr (Some 3)) (Inr []) (Inr (Some 0))) None 0))
     \<noteq> Some (confidence (computeCommunityPestTrend ''PH''
      (fakeStore (Inr [\<lparr>created_at = Some 0, dark_pixel_ratio = JNum 0.1, estimated_pest_count = JNum 6\<rparr>])
         (Inr (Some 3)) (Inr []) (Inr (Some 0))) None 0))
   \<and> trend (computeCommunityPestTrend ''PH''
      (fakeStore (Inr [\<lparr>created_at = Some 0, dark_pixel_ratio = JNum 0.1, estimated_pest_count = JNum 6\<rparr>])
         (Inr (Some 3)) (Inr []) (Inr (Some 0))) None 0) = ''stable_moderate''
   \<and> map_of specConfidence ''stable_moderate'' = Some ''high''
   \<and> map_of codeConfidence ''stable_moderate'' = Some ''medium''
   \<and> confidence (computeCommunityPestTrend ''PH''
      (fakeStore (Inr [\<lparr>created_at = Some 0, dark_pixel_ratio = JNum 0.1, estimated_pest_count = JNum 6\<rparr>])
         (Inr (Some 3)) (Inr []) (Inr (Some 0))) None 0) = ''medium''"
  by (simp add: computeCommunityPestTrend_def pestTrendBody_def fakeStore_def user_count_def
        clampCount_def js_or_def pestLevel_def specConfidence_def codeConfidence_def)

text \<open>
  C8. Whatever is thrown inside either aggregator (the fetch of the dataset fails, or the
  dataset is not empty and the participant count fails) does not leave it: the result is
  the degraded one, with the trend \<^verbatim>\<open>error\<close>, the level \<^verbatim>\<open>unknown\<close> and the confidence
  low.
\<close>

theorem community_errors_degrade:
  "(pestDataset db areaId filterType = Inl e
      \<or> (pestDataset db areaId filterType = Inr rows \<and> rows \<noteq> []
           \<and> user_count (getCommunityUserCount db areaId) = Inl e)
    \<longrightarrow> computeCommunityPestTrend areaId db filterType now
           = \<lparr>trend = ''error'', participation = 0, confidence = ''low'',
              recentActivity = UnableToLoadData, totalSubmissions = None,
              communityRiskLevel = ''unknown'', averagePestLevel = None\<rparr>)
   \<and> (heatDataset db areaId filterType = Inl e'
      \<or> (heatDataset db areaId filterType = Inr rows' \<and> rows' \<noteq> []
           \<and> user_count (getCommunityUserCountMicroclimate db areaId) = Inl e')
    \<longrightarrow> computeCommunityHeatStressTrend areaId db filterType now
           = \<lparr>trend = ''error'', participation = 0, confidence = ''low'',
              recentActivity = UnableToLoadData, totalSubmissions = None,
              heatStressLevel = ''unknown'', averageAirTemp = None, averageHumidity = None\<rparr>)"
proof (intro conjI impI)
  assume "pestDataset db areaId filterType = Inl e
      \<or> (pestDataset db areaId filterType = Inr rows \<and> rows \<noteq> []
           \<and> user_count (getCommunityUserCount db areaId) = Inl e)"
  then have "pestTrendBody areaId db (case filterType of None \<Rightarrow> ''recent'' | Some t \<Rightarrow> t) now
               = Inl e"
    using pest_body_fetch_fails pest_body_count_fails
    unfolding pestDataset_def by blast
  then show "computeCommunityPestTrend areaId db filterType now
           = \<lparr>trend = ''error'', participation = 0, confidence = ''low'',
              recentActivity = UnableToLoadData, totalSubmissions = None,
              communityRiskLevel = ''unknown'', averagePestLevel = None\<rparr>"
    by (simp add: computeCommunityPestTrend_def)
next
  assume "heatDataset db areaId filterType = Inl e'
      \<or> (heatDataset db areaId filterType = Inr rows' \<and> rows' \<noteq> []
           \<and> user_count (getCommunityUserCountMicroclimate db areaId) = Inl e')"
  then have "heatTrendBody areaId db (case filterType of None \<Rightarrow> ''recent'' | Some t \<Rightarrow> t) now
               = Inl e'"
    using heat_body_fetch_fails heat_body_count_fails
    unfolding heatDataset_def by blast
  then show "computeCommunityHeatStressTrend areaId db filterType now
           = \<lparr>trend = ''error'', participation = 0, confidence = ''low'',
              recentActivity = UnableToLoadData, totalSubmissions = None,
              heatStressLevel = ''unknown'', averageAirTemp = None, averageHumidity = None\<rparr>"
    by (simp add: computeCommunityHeatStressTrend_def)
qed

theorem community_errors_degrade_witness:
  "trend (computeCommunityPestTrend ''PH''
      (fakeStore (Inl (StoreError ''SQLITE_BUSY'')) (Inr (Some 3))
         (Inr [\<lparr>created_at = Some 0, air_temperature = JNum 36, relative_humidity = JNum 20,
               soil_moisture = JNum 15, heat_stress_level = ''critical''\<rparr>]) (Inr None))
      (Some ''all'') 0) = ''error''
   \<and> heatStressLevel (computeCommunityHeatStressTrend ''PH''
      (fakeStore (Inl (StoreError ''SQLITE_BUSY'')) (Inr (Some 3))
         (Inr [\<lparr>created_at = Some 0, air_temperature = JNum 36, relative_humidity = JNum 20,
               soil_moisture = JNum 15, heat_stress_level = ''critical''\<rparr>]) (Inr None))
      (Some ''all'') 0) = ''unknown''"
  using community_errors_degrade [of
      "fakeStore (Inl (StoreError ''SQLITE_BUSY'')) (Inr (Some 3))
         (Inr [\<lparr>created_at = Some 0, air_temperature = JNum 36, relative_humidity = JNum 20,
               soil_moisture = JNum 15, heat_stress_level = ''critical''\<rparr>]) (Inr None)"
      "''PH''" "Some ''all''" "StoreError ''SQLITE_BUSY''" "[]" 0 TypeError
      "[\<lparr>created_at = Some 0, air_temperature = JNum 36, relative_humidity = JNum 20,
               soil_moisture = JNum 15, heat_stress_level = ''critical''\<rparr>]"]
  by (simp add: pestDataset_def heatDataset_def fakeStore_def user_count_def)

text \<open>
  C9. For an empty dataset each aggregator returns the fixed result with the trend
  \<^verbatim>\<open>no_data\<close>, the level low (pest) or minimal (heat), the confidence low and the
  participation 0.
\<close>

theorem community_empty_no_data:
  "(pestDataset db areaId filterType = Inr []
    \<longrightarrow> computeCommunityPestTrend areaId db filterType now
           = \<lparr>trend = ''no_data'', participation = 0, confidence = ''low'',
              recentActivity = NoRecentSubmissions, totalSubmissions = None,
              communityRiskLevel = ''low'', averagePestLevel = None\<rparr>)
   \<and> (heatDataset db areaId filterType = Inr []
    \<longrightarrow> computeCommunityHeatStressTrend areaId db filterType now
           = \<lparr>trend = ''no_data'', participation = 0, confidence = ''low'',
              recentActivity = NoRecentSubmissions, totalSubmissions = None,
              heatStressLevel = ''minimal'', averageAirTemp = None, averageHumidity = None\<rparr>)"
proof (intro conjI impI)
  assume a: "pestDataset db areaId filterType = Inr []"
  have "pestTrendBody areaId db (case filterType of None \<Rightarrow> ''recent'' | Some t \<Rightarrow> t) now =
       Inr \<lparr>trend = ''no_data'', participation = 0, confidence = ''low'',
            recentActivity = NoRecentSubmissions, totalSubmissions = None,
            communityRiskLevel = ''low'', averagePestLevel = None\<rparr>"
    by (rule pest_body_empty) (use a in \<open>simp add: pestDataset_def\<close>)
  then show "computeCommunityPestTrend areaId db filterType now
           = \<lparr>trend = ''no_data'', participation = 0, confidence = ''low'',
              recentActivity = NoRecentSubmissions, totalSubmissions = None,
              communityRiskLevel = ''low'', averagePestLevel = None\<rparr>"
    by (simp add: computeCommunityPestTrend_def)
next
  assume a: "heatDataset db areaId filterType = Inr []"
  have "heatTrendBody areaId db (case filterType of None \<Rightarrow> ''recent'' | Some t \<Rightarrow> t) now =
       Inr \<lparr>trend = ''no_data'', participation = 0, confidence = ''low'',
            recentActivity = NoRecentSubmissions, totalSubmissions = None,
            heatStressLevel = ''minimal'', averageAirTemp = None, averageHumidity = None\<rparr>"
    by (rule heat_body_empty) (use a in \<open>simp add: heatDataset_def\<close>)
  then show "computeCommunityHeatStressTrend areaId db filterType now
           = \<lparr>trend = ''no_data'', participation = 0, confidence = ''low'',
              recentActivity = NoRecentSubmissions, totalSubmissions = None,
              heatStressLevel = ''minimal'', averageAirTemp = None, averageHumidity = None\<rparr>"
    by (simp add: computeCommunityHeatStressTrend_def)
qed

theorem community_empty_no_data_witness:
  "trend (computeCommunityPestTrend ''PH''
            (fakeStore (Inr []) (Inr (Some 0)) (Inr []) (Inr (Some 0))) None 0) = ''no_data''
   \<and> communityRiskLevel (computeCommunityPestTrend ''PH''
            (fakeStore (Inr []) (Inr (Some 0)) (Inr []) (Inr (Some 0))) None 0) = ''low''
   \<and> heatStressLevel (computeCommunityHeatStressTrend ''PH''
            (fakeStore (Inr []) (Inr (Some 0)) (Inr []) (Inr (Some 0))) None 0) = ''minimal''
   \<and> participation (computeCommunityHeatStressTrend ''PH''
            (fakeStore (Inr []) (Inr (Some 0)) (Inr []) (Inr (Some 0))) None 0) = 0"
  using community_empty_no_data [of "fakeStore (Inr []) (Inr (Some 0)) (Inr []) (Inr (Some 0))" "''PH''" None 0]
  by (simp add: pestDataset_def heatDataset_def fakeStore_def)


end
